theory Spec2Isabelle
  imports Complex_Main "HOL-Library.Sublist" "HOL-Library.Word" "HOL-Library.Code_Target_Nat"
begin

text \<open>
  A shallow embedding of the WatchTogether server and of the seek poll of its client:
  the room store (\<open>server/rooms.js\<close>), the REST and socket handlers
  (\<open>server/index.js\<close>), the poll that detects seeks (\<open>client/src/pages/Room.jsx\<close>)
  and the torrent streaming gateway (\<open>server/torrent.js\<close>), followed by the
  properties the specification states about them.
\<close>

section \<open>Room store (server/rooms.js)\<close>

text \<open>
  The module keeps one registry \<open>rooms\<close>, a JavaScript \<open>Map\<close> from room id to a room
  object. The registry is modelled as a partial function; the \<open>users\<close> field of a room is
  a JavaScript \<open>Map\<close> whose iteration order (insertion order) is observable through
  \<open>getUsersList\<close>, so it is an association list with the three \<open>Map\<close> operations the
  module uses. \<open>Date.now()\<close> is the parameter \<open>now\<close> (milliseconds, an integer).
  Playback positions are JavaScript numbers; they are idealised as reals.
  A value that may be \<open>null\<close> is an option; a property that may be \<open>undefined\<close>
  (absent from a payload) is an option as well.
\<close>

type_synonym socket_id = string
type_synonym room_id = string

record room =
  sourceType :: string
  videoId :: "string option"
  url :: "string option"
  magnetURI :: "string option"
  currentTime :: real
  isPlaying :: bool
  lastUpdate :: int
  users :: "(socket_id \<times> string) list"

type_synonym rooms = "room_id \<rightharpoonup> room"

text \<open>\<open>Map.prototype.set\<close>: an existing key keeps its position, a new key goes last.\<close>

fun map_set :: "'k \<Rightarrow> 'v \<Rightarrow> ('k \<times> 'v) list \<Rightarrow> ('k \<times> 'v) list" where
  "map_set k v [] = [(k, v)]"
| "map_set k v ((k', v') # kvs) =
     (if k' = k then (k, v) # kvs else (k', v') # map_set k v kvs)"

definition map_delete :: "'k \<Rightarrow> ('k \<times> 'v) list \<Rightarrow> ('k \<times> 'v) list" where
  "map_delete k kvs = filter (\<lambda>kv. fst kv \<noteq> k) kvs"

definition map_get :: "'k \<Rightarrow> ('k \<times> 'v) list \<Rightarrow> 'v option" where
  "map_get k kvs = map_of kvs k"

text \<open>\<open>v || d\<close> on a string that may be undefined: the empty string is falsy too.\<close>

definition or_default :: "string \<Rightarrow> string option \<Rightarrow> string" where
  "or_default d v = (case v of None \<Rightarrow> d | Some s \<Rightarrow> if s = [] then d else s)"

text \<open>Truthiness of a string that may be undefined or \<open>null\<close>.\<close>

definition truthy :: "string option \<Rightarrow> bool" where
  "truthy v = (case v of None \<Rightarrow> False | Some s \<Rightarrow> s \<noteq> [])"

text \<open>\<open>v || null\<close>.\<close>

definition or_null :: "string option \<Rightarrow> string option" where
  "or_null v = (case v of None \<Rightarrow> None | Some s \<Rightarrow> if s = [] then None else Some s)"

definition createRoom :: "rooms \<Rightarrow> int \<Rightarrow> room_id \<Rightarrow> rooms \<times> room" where
  "createRoom rs now roomId =
     (let room = \<lparr> sourceType = ''youtube'', videoId = None, url = None, magnetURI = None,
                   currentTime = 0, isPlaying = False, lastUpdate = now, users = [] \<rparr>
      in (rs(roomId \<mapsto> room), room))"

definition getRoom :: "rooms \<Rightarrow> room_id \<Rightarrow> room option" where
  "getRoom rs roomId = rs roomId"

definition joinRoom ::
  "rooms \<Rightarrow> int \<Rightarrow> room_id \<Rightarrow> socket_id \<Rightarrow> string option \<Rightarrow> rooms \<times> room" where
  "joinRoom rs now roomId socketId username =
     (let (rs1, room) = (case rs roomId of None \<Rightarrow> createRoom rs now roomId
                                          | Some r \<Rightarrow> (rs, r));
          room' = room\<lparr>users := map_set socketId (or_default ''Guest'' username) (users room)\<rparr>
      in (rs1(roomId \<mapsto> room'), room'))"

text \<open>The result \<open>{ remaining, username }\<close> is the pair after the new registry.\<close>

definition leaveRoom ::
  "rooms \<Rightarrow> room_id \<Rightarrow> socket_id \<Rightarrow> rooms \<times> nat \<times> string option" where
  "leaveRoom rs roomId socketId =
     (case rs roomId of
        None \<Rightarrow> (rs, 0, None)
      | Some room \<Rightarrow>
          (let username = map_get socketId (users room);
               room' = room\<lparr>users := map_delete socketId (users room)\<rparr>
           in if length (users room') = 0 then (rs(roomId := None), 0, username)
              else (rs(roomId \<mapsto> room'), length (users room'), username)))"

text \<open>
  The argument of \<open>updateRoom\<close>: every property may be undefined (outer \<open>None\<close>), and the
  three source payloads may be \<open>null\<close> (inner \<open>None\<close>).
\<close>

record updates =
  u_sourceType :: "string option"
  u_videoId :: "string option option"
  u_url :: "string option option"
  u_magnetURI :: "string option option"
  u_currentTime :: "real option"
  u_isPlaying :: "bool option"

definition no_updates :: updates where
  "no_updates = \<lparr> u_sourceType = None, u_videoId = None, u_url = None, u_magnetURI = None,
                   u_currentTime = None, u_isPlaying = None \<rparr>"

definition assign :: "'a option \<Rightarrow> 'a \<Rightarrow> 'a" where
  "assign upd old = (case upd of None \<Rightarrow> old | Some v \<Rightarrow> v)"

definition updateRoom :: "rooms \<Rightarrow> int \<Rightarrow> room_id \<Rightarrow> updates \<Rightarrow> rooms \<times> room option" where
  "updateRoom rs now roomId upd =
     (case rs roomId of
        None \<Rightarrow> (rs, None)
      | Some room \<Rightarrow>
          (let room' = room\<lparr> sourceType := assign (u_sourceType upd) (sourceType room),
                              videoId := assign (u_videoId upd) (videoId room),
                              url := assign (u_url upd) (url room),
                              magnetURI := assign (u_magnetURI upd) (magnetURI room),
                              currentTime := assign (u_currentTime upd) (currentTime room),
                              isPlaying := assign (u_isPlaying upd) (isPlaying room),
                              lastUpdate := now \<rparr>
           in (rs(roomId \<mapsto> room'), Some room')))"

definition getUsersList :: "rooms \<Rightarrow> room_id \<Rightarrow> (socket_id \<times> string) list" where
  "getUsersList rs roomId =
     (case rs roomId of None \<Rightarrow> []
      | Some room \<Rightarrow> map (\<lambda>(socketId, data). (socketId, data)) (users room))"

record room_state =
  s_sourceType :: string
  s_videoId :: "string option"
  s_url :: "string option"
  s_magnetURI :: "string option"
  s_currentTime :: real
  s_isPlaying :: bool
  s_userCount :: nat
  s_users :: "(socket_id \<times> string) list"

definition getRoomState :: "rooms \<Rightarrow> int \<Rightarrow> room_id \<Rightarrow> room_state option" where
  "getRoomState rs now roomId =
     (case rs roomId of
        None \<Rightarrow> None
      | Some room \<Rightarrow>
          (let currentTime0 = currentTime room;
               currentTime1 = (if isPlaying room
                               then currentTime0 + real_of_int (now - lastUpdate room) / 1000
                               else currentTime0)
           in Some \<lparr> s_sourceType = sourceType room, s_videoId = videoId room,
                      s_url = url room, s_magnetURI = magnetURI room,
                      s_currentTime = currentTime1, s_isPlaying = isPlaying room,
                      s_userCount = length (users room),
                      s_users = getUsersList rs roomId \<rparr>))"

definition roomExists :: "rooms \<Rightarrow> room_id \<Rightarrow> bool" where
  "roomExists rs roomId = (rs roomId \<noteq> None)"


section \<open>Real-time channel and REST handlers (server/index.js)\<close>

text \<open>
  The server state is the room registry together with what the socket library keeps:
  which sockets have joined which channel room (\<open>socket.join\<close>), and the two properties
  the handlers store on a socket (\<open>socket.roomId\<close>, \<open>socket.username\<close>).
  A handler runs to completion before the next one starts, so it is one function from
  the state to the new state and the list of emitted (recipient, event) pairs.
  \<open>socket.to(r).emit\<close> reaches every socket joined to channel room \<open>r\<close> except the
  sending socket; \<open>io.to(r).emit\<close> reaches every socket joined to \<open>r\<close>;
  \<open>socket.emit\<close> reaches the socket itself.
\<close>

datatype event =
    SyncState "room_state option"
  | UserJoined string int
  | UserLeft string int
  | UsersList "(socket_id \<times> string) list"
  | VideoChange "string option" "string option" "string option" "string option"
  | Play real
  | Pause real
  | Seek real
  | ReceiveMessage string "string option" int

record server =
  rooms :: rooms
  members :: "room_id \<Rightarrow> socket_id list"
  sock_roomId :: "socket_id \<rightharpoonup> room_id"
  sock_username :: "socket_id \<rightharpoonup> string"

type_synonym emits = "(socket_id \<times> event) list"

definition socket_join :: "server \<Rightarrow> socket_id \<Rightarrow> room_id \<Rightarrow> server" where
  "socket_join st sid roomId =
     st\<lparr>members := (members st)(roomId :=
           (if sid \<in> set (members st roomId) then members st roomId
            else members st roomId @ [sid]))\<rparr>"

definition socket_to_emit :: "server \<Rightarrow> socket_id \<Rightarrow> room_id \<Rightarrow> event \<Rightarrow> emits" where
  "socket_to_emit st sid roomId ev =
     map (\<lambda>r. (r, ev)) (filter (\<lambda>r. r \<noteq> sid) (members st roomId))"

definition io_to_emit :: "server \<Rightarrow> room_id \<Rightarrow> event \<Rightarrow> emits" where
  "io_to_emit st roomId ev = map (\<lambda>r. (r, ev)) (members st roomId)"

definition placeholder :: socket_id where
  "placeholder = ''__placeholder__''"

text \<open>\<open>POST /api/rooms\<close>; the fresh id \<open>uuidv4().slice(0, 8)\<close> is the parameter.\<close>

definition post_rooms :: "server \<Rightarrow> int \<Rightarrow> room_id \<Rightarrow> server \<times> room_id" where
  "post_rooms st now roomId =
     (st\<lparr>rooms := fst (joinRoom (rooms st) now roomId placeholder (Some ''__system__''))\<rparr>,
      roomId)"

text \<open>\<open>GET /api/rooms/:roomId\<close>: status code and, when the room exists, its state.\<close>

definition get_rooms :: "server \<Rightarrow> int \<Rightarrow> room_id \<Rightarrow> server \<times> nat \<times> room_state option" where
  "get_rooms st now roomId =
     (if roomExists (rooms st) roomId then (st, 200, getRoomState (rooms st) now roomId)
      else (st, 404, None))"

definition broadcastUsersList :: "server \<Rightarrow> room_id \<Rightarrow> emits" where
  "broadcastUsersList st roomId =
     (let users = getUsersList (rooms st) roomId;
          filtered = filter (\<lambda>u. fst u \<noteq> placeholder) users
      in io_to_emit st roomId (UsersList filtered))"

definition on_join_room ::
  "server \<Rightarrow> int \<Rightarrow> socket_id \<Rightarrow> room_id \<Rightarrow> string option \<Rightarrow> server \<times> emits" where
  "on_join_room st now sid roomId username =
     (let name = or_default ''Guest'' username;
          st1 = (socket_join st sid roomId)
                  \<lparr>sock_roomId := (sock_roomId st)(sid \<mapsto> roomId),
                   sock_username := (sock_username st)(sid \<mapsto> name)\<rparr>;
          rs1 = fst (leaveRoom (rooms st1) roomId placeholder);
          rs2 = fst (joinRoom rs1 now roomId sid (Some name));
          st2 = st1\<lparr>rooms := rs2\<rparr>;
          state = getRoomState rs2 now roomId
      in (st2, [(sid, SyncState state)]
               @ socket_to_emit st2 sid roomId (UserJoined name now)
               @ broadcastUsersList st2 roomId))"

definition on_video_change ::
  "server \<Rightarrow> int \<Rightarrow> socket_id \<Rightarrow> room_id \<Rightarrow> string option \<Rightarrow> string option \<Rightarrow>
     string option \<Rightarrow> string option \<Rightarrow> server \<times> emits" where
  "on_video_change st now sid roomId sourceType' videoId' url' magnetURI' =
     (let rs' = fst (updateRoom (rooms st) now roomId
                  \<lparr> u_sourceType = Some (or_default ''youtube'' sourceType'),
                    u_videoId = Some (or_null videoId'),
                    u_url = Some (or_null url'),
                    u_magnetURI = Some (or_null magnetURI'),
                    u_currentTime = Some 0,
                    u_isPlaying = Some False \<rparr>)
      in (st\<lparr>rooms := rs'\<rparr>,
          socket_to_emit st sid roomId (VideoChange sourceType' videoId' url' magnetURI')))"

definition on_play :: "server \<Rightarrow> int \<Rightarrow> socket_id \<Rightarrow> room_id \<Rightarrow> real \<Rightarrow> server \<times> emits" where
  "on_play st now sid roomId currentTime' =
     (let rs' = fst (updateRoom (rooms st) now roomId
                  (no_updates\<lparr>u_currentTime := Some currentTime', u_isPlaying := Some True\<rparr>))
      in (st\<lparr>rooms := rs'\<rparr>, socket_to_emit st sid roomId (Play currentTime')))"

definition on_pause :: "server \<Rightarrow> int \<Rightarrow> socket_id \<Rightarrow> room_id \<Rightarrow> real \<Rightarrow> server \<times> emits" where
  "on_pause st now sid roomId currentTime' =
     (let rs' = fst (updateRoom (rooms st) now roomId
                  (no_updates\<lparr>u_currentTime := Some currentTime', u_isPlaying := Some False\<rparr>))
      in (st\<lparr>rooms := rs'\<rparr>, socket_to_emit st sid roomId (Pause currentTime')))"

text \<open>\<open>room?.isPlaying ?? false\<close> keeps the play state of an existing room.\<close>

definition on_seek :: "server \<Rightarrow> int \<Rightarrow> socket_id \<Rightarrow> room_id \<Rightarrow> real \<Rightarrow> server \<times> emits" where
  "on_seek st now sid roomId currentTime' =
     (let room = getRoomState (rooms st) now roomId;
          playing = (case room of None \<Rightarrow> False | Some s \<Rightarrow> s_isPlaying s);
          rs' = fst (updateRoom (rooms st) now roomId
                  (no_updates\<lparr>u_currentTime := Some currentTime', u_isPlaying := Some playing\<rparr>))
      in (st\<lparr>rooms := rs'\<rparr>, socket_to_emit st sid roomId (Seek currentTime')))"

definition on_send_message ::
  "server \<Rightarrow> int \<Rightarrow> socket_id \<Rightarrow> room_id \<Rightarrow> string option \<Rightarrow> server \<times> emits" where
  "on_send_message st now sid roomId text' =
     (let msg = ReceiveMessage (or_default ''Guest'' (sock_username st sid)) text' now
      in (st, io_to_emit st roomId msg))"

text \<open>
  On disconnect the socket library has already taken the socket out of every channel
  room when the handler runs.
\<close>

definition socket_leave_all :: "server \<Rightarrow> socket_id \<Rightarrow> server" where
  "socket_leave_all st sid = st\<lparr>members := (\<lambda>r. filter (\<lambda>x. x \<noteq> sid) (members st r))\<rparr>"

definition on_disconnect :: "server \<Rightarrow> int \<Rightarrow> socket_id \<Rightarrow> server \<times> emits" where
  "on_disconnect st now sid =
     (let st1 = socket_leave_all st sid
      in case sock_roomId st1 sid of
           None \<Rightarrow> (st1, [])
         | Some roomId \<Rightarrow>
             if roomId = [] then (st1, [])
             else (let (rs', remaining, username) = leaveRoom (rooms st1) roomId sid;
                       st2 = st1\<lparr>rooms := rs'\<rparr>
                   in if remaining > 0
                      then (st2, io_to_emit st2 roomId (UserLeft (or_default ''Guest'' username) now)
                                 @ broadcastUsersList st2 roomId)
                      else (st2, [])))"


section \<open>Seek detection poll (client/src/pages/Room.jsx, onYTReady)\<close>

text \<open>
  The two refs the interval callback reads and writes, and the intents it can emit.
  The player's position is \<open>None\<close> when the player object has no \<open>getCurrentTime\<close>
  method, the case the callback guards against first.
\<close>

record seek_poll =
  lastTimeRef :: real
  isRemoteAction :: bool

datatype intent = EmitSeek room_id real

definition poll_tick :: "room_id \<Rightarrow> real option \<Rightarrow> seek_poll \<Rightarrow> seek_poll \<times> intent list" where
  "poll_tick roomId getCurrentTime c =
     (case getCurrentTime of
        None \<Rightarrow> (c, [])
      | Some t \<Rightarrow>
          (let diff = \<bar>t - lastTimeRef c\<bar>;
               out = (if diff > 2 \<and> \<not> isRemoteAction c then [EmitSeek roomId t] else [])
           in (c\<lparr>lastTimeRef := t\<rparr>, out)))"

section \<open>Torrent streaming gateway (server/torrent.js)\<close>

subsection \<open>JavaScript strings and numbers used by the range parser\<close>

text \<open>
  Header values reach the handler as strings of 8-bit characters. A JavaScript number
  is a double. The model tracks the doubles it can compute with exactly: \<open>Num i\<close> is
  the integer \<open>i\<close>, used only for a magnitude of at most \<open>2^53\<close>, where every integer
  is a double, and \<open>NaN\<close> is the not-a-number value. Every other number (an integer
  beyond that range, which the language rounds, or a result computed from one) is
  \<open>Untracked\<close>: the model says nothing about its value.
\<close>

datatype jsnum = Num int | NaN | Untracked

definition exact :: "int \<Rightarrow> bool" where
  "exact i = (\<bar>i\<bar> \<le> 2 ^ 53)"

definition to_num :: "int \<Rightarrow> jsnum" where
  "to_num i = (if exact i then Num i else Untracked)"

text \<open>
  Subtraction and addition: \<open>NaN\<close> with anything is \<open>NaN\<close>; the result of two integers
  of the exact range is tracked when it is in the exact range.
\<close>

definition js_sub :: "jsnum \<Rightarrow> jsnum \<Rightarrow> jsnum" where
  "js_sub a b = (case (a, b) of
                   (NaN, _) \<Rightarrow> NaN
                 | (_, NaN) \<Rightarrow> NaN
                 | (Num x, Num y) \<Rightarrow> if exact x \<and> exact y then to_num (x - y) else Untracked
                 | _ \<Rightarrow> Untracked)"

definition js_add :: "jsnum \<Rightarrow> jsnum \<Rightarrow> jsnum" where
  "js_add a b = (case (a, b) of
                   (NaN, _) \<Rightarrow> NaN
                 | (_, NaN) \<Rightarrow> NaN
                 | (Num x, Num y) \<Rightarrow> if exact x \<and> exact y then to_num (x + y) else Untracked
                 | _ \<Rightarrow> Untracked)"

definition digit_char :: "nat \<Rightarrow> char" where
  "digit_char d = char_of (48 + d)"

fun dec :: "nat \<Rightarrow> string" where
  "dec n = (if n < 10 then [digit_char n] else dec (n div 10) @ [digit_char (n mod 10)])"

declare dec.simps [simp del]

text \<open>
  Number to string, as a template literal does it: an integer of the exact range prints
  all its digits. The text of a number the model does not track is \<open>None\<close>.
\<close>

definition num_str :: "jsnum \<Rightarrow> string option" where
  "num_str x = (case x of
                  NaN \<Rightarrow> Some ''NaN''
                | Untracked \<Rightarrow> None
                | Num i \<Rightarrow> if exact i
                           then Some (if i < 0 then CHR ''-'' # dec (nat (- i)) else dec (nat i))
                           else None)"

definition is_space :: "char \<Rightarrow> bool" where
  "is_space c = (of_char c \<in> {9, 10, 11, 12, 13, 32, 160 :: nat})"

definition is_digit :: "char \<Rightarrow> bool" where
  "is_digit c = (48 \<le> (of_char c :: nat) \<and> (of_char c :: nat) \<le> 57)"

definition digit_val :: "char \<Rightarrow> nat" where
  "digit_val c = of_char c - 48"

fun digits_val :: "nat \<Rightarrow> string \<Rightarrow> nat" where
  "digits_val acc [] = acc"
| "digits_val acc (c # cs) = digits_val (10 * acc + digit_val c) cs"

text \<open>
  \<open>parseInt(s, 10)\<close>: leading white space is skipped, one sign is accepted, the longest
  run of decimal digits is read, and no digit at all gives \<open>NaN\<close>. The digits give
  their integer when it is in the exact range; a longer run is rounded by the language
  and is not tracked.
\<close>

definition parseInt :: "string \<Rightarrow> jsnum" where
  "parseInt s =
     (let s1 = dropWhile is_space s;
          (neg, s2) = (case s1 of
                         [] \<Rightarrow> (False, [])
                       | c # cs \<Rightarrow> if c = CHR ''-'' then (True, cs)
                                   else if c = CHR ''+'' then (False, cs)
                                   else (False, s1));
          ds = takeWhile is_digit s2
      in if ds = [] then NaN
         else to_num ((if neg then - 1 else 1) * int (digits_val 0 ds)))"

text \<open>\<open>subject.replace(/pat/, rep)\<close> for a literal pattern: the first match only.\<close>

fun replace_first :: "string \<Rightarrow> string \<Rightarrow> string \<Rightarrow> string" where
  "replace_first pat rep [] = (if pat = [] then rep else [])"
| "replace_first pat rep (c # cs) =
     (if prefix pat (c # cs) then rep @ drop (length pat) (c # cs)
      else c # replace_first pat rep cs)"

text \<open>\<open>s.split(d)\<close> for a one-character separator: never an empty array.\<close>

fun split_on :: "char \<Rightarrow> string \<Rightarrow> string list" where
  "split_on d [] = [[]]"
| "split_on d (c # cs) =
     (if c = d then [] # split_on d cs
      else (case split_on d cs of [] \<Rightarrow> [[c]] | p # ps \<Rightarrow> (c # p) # ps))"

text \<open>\<open>parts[i]\<close>, undefined out of range.\<close>

fun index_opt :: "'a list \<Rightarrow> nat \<Rightarrow> 'a option" where
  "index_opt [] i = None"
| "index_opt (x # xs) 0 = Some x"
| "index_opt (x # xs) (Suc i) = index_opt xs i"

text \<open>
  \<open>toLowerCase\<close>, on ASCII letters: the extensions and the MIME keys it is compared
  with are ASCII.
\<close>

definition to_lower :: "char \<Rightarrow> char" where
  "to_lower c = (let n = (of_char c :: nat) in if 65 \<le> n \<and> n \<le> 90 then char_of (n + 32) else c)"

definition toLowerCase :: "string \<Rightarrow> string" where
  "toLowerCase s = map to_lower s"

subsection \<open>Module state and the torrent library\<close>

text \<open>
  A file and a torrent are objects of the torrent library; the model keeps the
  properties the module reads. The four module variables form the gateway state.
  Calls into the library's client are returned by the handlers as a list.
  The length of a file is a byte count that a double holds exactly, a non-negative
  integer below \<open>2^53\<close>: it is kept in 53 bits, and \<open>f_length\<close> reads it as the number
  \<open>file.length\<close>.
\<close>

record torrent_file =
  f_name :: string
  f_bytes :: "53 word"

definition f_length :: "torrent_file \<Rightarrow> int" where
  "f_length f = uint (f_bytes f)"

record torrent =
  t_name :: string
  t_files :: "torrent_file list"
  t_progress :: real

record gateway =
  activeTorrent :: "torrent option"
  activeFile :: "torrent_file option"
  activeMagnet :: "string option"
  addError :: "string option"

datatype client_call = ClientRemove torrent | ClientAdd string

definition idle_gateway :: gateway where
  "idle_gateway = \<lparr> activeTorrent = None, activeFile = None, activeMagnet = None,
                     addError = None \<rparr>"

definition VIDEO_EXTS :: "string list" where
  "VIDEO_EXTS = [''.mp4'', ''.webm'', ''.mkv'', ''.avi'', ''.ogg'', ''.m4v'', ''.mov'',
                 ''.m2ts'', ''.ts'']"

text \<open>The largest video file; the sort is stable, so the first of the largest wins.\<close>

definition findVideoFile :: "torrent \<Rightarrow> torrent_file option" where
  "findVideoFile t =
     (case sort_key (\<lambda>f. - f_length f)
             (filter (\<lambda>f. \<exists>ext \<in> set VIDEO_EXTS. suffix ext (toLowerCase (f_name f)))
                (t_files t)) of
        [] \<Rightarrow> None
      | f # _ \<Rightarrow> Some f)"

text \<open>
  \<open>POST /api/torrent/add\<close>: the new state, the calls made on the library's client, the
  status code and the \<open>status\<close> (or \<open>error\<close>) text of the JSON answer. The handler
  is taken as one step (it awaits the client object between its first check and the
  removal of the previous torrent).
\<close>

definition post_torrent_add ::
  "gateway \<Rightarrow> string option \<Rightarrow> gateway \<times> client_call list \<times> nat \<times> string" where
  "post_torrent_add g magnetURI' =
     (case magnetURI' of
        None \<Rightarrow> (g, [], 400, ''magnetURI is required'')
      | Some m \<Rightarrow>
          if m = [] then (g, [], 400, ''magnetURI is required'')
          else if activeMagnet g = Some m \<and> activeTorrent g \<noteq> None
          then (g, [], 200, ''already-active'')
          else (let (g1, calls) =
                      (case activeTorrent g of
                         None \<Rightarrow> (g, [])
                       | Some t \<Rightarrow> (g\<lparr>activeTorrent := None, activeFile := None,
                                        activeMagnet := None, addError := None\<rparr>,
                                     [ClientRemove t]));
                    g2 = g1\<lparr>activeMagnet := Some m, addError := None\<rparr>
                in (g2, calls @ [ClientAdd m], 200, ''adding'')))"

text \<open>The callback of \<open>client.add\<close>, run when the library has the torrent's metadata.\<close>

definition on_torrent :: "gateway \<Rightarrow> torrent \<Rightarrow> gateway" where
  "on_torrent g t = g\<lparr>activeTorrent := Some t, activeFile := findVideoFile t\<rparr>"

text \<open>The two error listeners.\<close>

definition on_error :: "gateway \<Rightarrow> string \<Rightarrow> gateway" where
  "on_error g message = g\<lparr>addError := Some message\<rparr>"

text \<open>
  \<open>GET /api/torrent/status\<close>: the \<open>status\<close> and \<open>ready\<close> properties of the answer (the
  other properties copy the library's counters).
\<close>

definition get_torrent_status :: "gateway \<Rightarrow> string \<times> bool" where
  "get_torrent_status g =
     (if truthy (addError g) then (''error'', False)
      else case activeTorrent g of
             None \<Rightarrow> (if truthy (activeMagnet g) then ''connecting'' else ''idle'', False)
           | Some t \<Rightarrow>
               (case activeFile g of
                  None \<Rightarrow> (''no-video'', False)
                | Some f \<Rightarrow> (if t_progress t \<ge> 0.01 then ''streaming'' else ''downloading'',
                              t_progress t \<ge> 0.005)))"

definition post_torrent_remove :: "gateway \<Rightarrow> gateway \<times> client_call list" where
  "post_torrent_remove g =
     (g\<lparr>activeTorrent := None, activeFile := None, activeMagnet := None, addError := None\<rparr>,
      case activeTorrent g of None \<Rightarrow> [] | Some t \<Rightarrow> [ClientRemove t])"

subsection \<open>The stream endpoint\<close>

text \<open>
  A header value is a string or a number; \<open>HUntracked\<close> is a string built from a number
  whose text the model does not track.
\<close>

datatype header_value = HStr string | HNum jsnum | HUntracked

datatype body = Json string | FileStream "(jsnum \<times> jsnum) option"

record response =
  status :: nat
  headers :: "(string \<times> header_value) list"
  body :: body

definition mimeMap :: "(string \<times> string) list" where
  "mimeMap = [(''mp4'', ''video/mp4''), (''webm'', ''video/webm''),
              (''mkv'', ''video/x-matroska''), (''avi'', ''video/x-msvideo''),
              (''ogg'', ''video/ogg''), (''m4v'', ''video/mp4''),
              (''mov'', ''video/quicktime''), (''ts'', ''video/mp2t''),
              (''m2ts'', ''video/mp2t'')]"

text \<open>The template literal \<open>bytes ${start}-${end}/${fileSize}\<close>.\<close>

definition content_range :: "jsnum \<Rightarrow> jsnum \<Rightarrow> jsnum \<Rightarrow> header_value" where
  "content_range start end' fileSize =
     (case (num_str start, num_str end', num_str fileSize) of
        (Some a, Some b, Some c) \<Rightarrow> HStr (''bytes '' @ a @ ''-'' @ b @ ''/'' @ c)
      | _ \<Rightarrow> HUntracked)"

definition contentType_of :: "string \<Rightarrow> string" where
  "contentType_of name =
     (let ext = toLowerCase (last (split_on (CHR ''.'') name))
      in case map_of mimeMap ext of None \<Rightarrow> ''video/mp4'' | Some m \<Rightarrow> m)"

text \<open>
  \<open>GET /api/torrent/stream\<close> with the request's \<open>Range\<close> header (\<open>None\<close> when absent).
  The answer is the status and headers given to \<open>writeHead\<close> and the span asked of
  \<open>file.createReadStream\<close>.
\<close>

definition get_torrent_stream :: "gateway \<Rightarrow> string option \<Rightarrow> response" where
  "get_torrent_stream g range' =
     (case activeFile g of
        None \<Rightarrow> \<lparr> status = 404, headers = [],
                  body = Json ''No video file available. Add a torrent first.'' \<rparr>
      | Some f \<Rightarrow>
          (let fileSize = Num (f_length f);
               contentType = contentType_of (f_name f)
           in if truthy range'
              then (let parts = split_on (CHR ''-'')
                                  (replace_first ''bytes='' [] (case range' of Some r \<Rightarrow> r | None \<Rightarrow> []));
                        start = (case index_opt parts 0 of None \<Rightarrow> NaN | Some p \<Rightarrow> parseInt p);
                        end' = (case index_opt parts 1 of
                                  None \<Rightarrow> js_sub fileSize (Num 1)
                                | Some p \<Rightarrow> if p \<noteq> [] then parseInt p
                                            else js_sub fileSize (Num 1));
                        chunkSize = js_add (js_sub end' start) (Num 1)
                    in \<lparr> status = 206,
                         headers = [(''Content-Range'', content_range start end' fileSize),
                                    (''Accept-Ranges'', HStr ''bytes''),
                                    (''Content-Length'', HNum chunkSize),
                                    (''Content-Type'', HStr contentType)],
                         body = FileStream (Some (start, end')) \<rparr>)
              else \<lparr> status = 200,
                     headers = [(''Content-Length'', HNum fileSize),
                                (''Content-Type'', HStr contentType),
                                (''Accept-Ranges'', HStr ''bytes'')],
                     body = FileStream None \<rparr>))"


section \<open>Concrete states used by the witnesses\<close>

definition demo_room :: room where
  "demo_room = \<lparr> sourceType = ''youtube'', videoId = Some ''dQw4w9WgXcQ'', url = None,
                  magnetURI = None, currentTime = 10.5, isPlaying = True, lastUpdate = 1000,
                  users = [(''s1'', ''ann''), (''s2'', ''bob'')] \<rparr>"

definition demo_server :: server where
  "demo_server = \<lparr> rooms = Map.empty(''r1'' \<mapsto> demo_room),
                    members = (\<lambda>r. if r = ''r1'' then [''s1'', ''s2''] else []),
                    sock_roomId = Map.empty(''s1'' \<mapsto> ''r1'', ''s2'' \<mapsto> ''r1''),
                    sock_username = Map.empty(''s1'' \<mapsto> ''ann'', ''s2'' \<mapsto> ''bob'') \<rparr>"

definition solo_rooms :: rooms where
  "solo_rooms = Map.empty(''r1'' \<mapsto> demo_room\<lparr>users := [(''s1'', ''ann'')]\<rparr>)"

section \<open>Operations of the room store as data\<close>

text \<open>
  Every exported function of the room store as one operation, and the registry it
  leaves behind. The four read functions contain no assignment: the registry after
  them is the registry before.
\<close>

datatype store_op =
    OpCreateRoom room_id
  | OpJoinRoom room_id socket_id "string option"
  | OpLeaveRoom room_id socket_id
  | OpUpdateRoom room_id updates
  | OpGetRoom room_id
  | OpGetUsersList room_id
  | OpGetRoomState room_id
  | OpRoomExists room_id

fun run_op :: "store_op \<Rightarrow> int \<Rightarrow> rooms \<Rightarrow> rooms" where
  "run_op (OpCreateRoom r) now rs = fst (createRoom rs now r)"
| "run_op (OpJoinRoom r s u) now rs = fst (joinRoom rs now r s u)"
| "run_op (OpLeaveRoom r s) now rs = fst (leaveRoom rs r s)"
| "run_op (OpUpdateRoom r upd) now rs = fst (updateRoom rs now r upd)"
| "run_op (OpGetRoom r) now rs = rs"
| "run_op (OpGetUsersList r) now rs = rs"
| "run_op (OpGetRoomState r) now rs = rs"
| "run_op (OpRoomExists r) now rs = rs"

fun is_read :: "store_op \<Rightarrow> bool" where
  "is_read (OpGetRoom r) = True"
| "is_read (OpGetUsersList r) = True"
| "is_read (OpGetRoomState r) = True"
| "is_read (OpRoomExists r) = True"
| "is_read _ = False"


section \<open>Delivery predicates\<close>

text \<open>
  An emission list relays an event to the others of a channel room when its recipients
  are the members of the room without the sender, each once, and every entry carries
  that event; it delivers to all when its recipients are the members, in order.
\<close>

definition relayed_to_others :: "server \<Rightarrow> socket_id \<Rightarrow> room_id \<Rightarrow> event \<Rightarrow> emits \<Rightarrow> bool" where
  "relayed_to_others st s r ev out =
     (set (map fst out) = set (members st r) - {s} \<and> distinct (map fst out)
      \<and> length out = length (members st r) - 1 \<and> set (map snd out) \<subseteq> {ev})"

definition delivered_to_all :: "server \<Rightarrow> room_id \<Rightarrow> event \<Rightarrow> emits \<Rightarrow> bool" where
  "delivered_to_all st r ev out =
     (map fst out = members st r \<and> length out = length (members st r)
      \<and> set (map snd out) \<subseteq> {ev})"

section \<open>Events that list the placeholder\<close>

text \<open>
  An event shows the placeholder when it carries a participant list with an entry
  whose socket id is the placeholder's.
\<close>

fun lists_placeholder :: "event \<Rightarrow> bool" where
  "lists_placeholder (UsersList l) = (placeholder \<in> fst ` set l)"
| "lists_placeholder (SyncState (Some s)) = (placeholder \<in> fst ` set (s_users s))"
| "lists_placeholder _ = False"

definition fresh_server :: server where
  "fresh_server = \<lparr> rooms = Map.empty, members = (\<lambda>r. []), sock_roomId = Map.empty,
                     sock_username = Map.empty \<rparr>"

definition precreated :: server where
  "precreated = fst (post_rooms fresh_server 1000 ''ab12cd34'')"

section \<open>Reading a response header; concrete gateway states\<close>

definition header :: "response \<Rightarrow> string \<Rightarrow> header_value option" where
  "header resp name = map_of (headers resp) name"

definition demo_file :: torrent_file where
  "demo_file = \<lparr> f_name = ''Movie.MKV'', f_bytes = 10000 \<rparr>"

definition demo_gateway :: gateway where
  "demo_gateway = \<lparr> activeTorrent = Some \<lparr> t_name = ''demo'', t_files = [demo_file], t_progress = 0.5 \<rparr>,
                     activeFile = Some demo_file, activeMagnet = Some ''magnet:?xt=urn:btih:aa'',
                     addError = None \<rparr>"


definition magnet_A :: string where
  "magnet_A = ''magnet:?xt=urn:btih:aaaa''"

definition magnet_B :: string where
  "magnet_B = ''magnet:?xt=urn:btih:bbbb''"

definition connecting_A :: gateway where
  "connecting_A = fst (post_torrent_add idle_gateway (Some magnet_A))"

definition torrent_A :: torrent where
  "torrent_A = \<lparr> t_name = ''A'', t_files = [\<lparr> f_name = ''a.mp4'', f_bytes = 700 \<rparr>],
                  t_progress = 0 \<rparr>"

section \<open>The server as a transition system\<close>

text \<open>
  The requests the server handles, and the state after one of them. A run starts in the
  state of a fresh process. The browser client emits \<open>join-room\<close> once per connection,
  with the room id of its page; \<open>admissible\<close> says so, and a state is reachable when
  such requests lead to it.
\<close>

datatype request =
    PostRooms room_id
  | GetRooms room_id
  | JoinRoom socket_id room_id "string option"
  | VideoChangeReq socket_id room_id "string option" "string option" "string option" "string option"
  | PlayReq socket_id room_id real
  | PauseReq socket_id room_id real
  | SeekReq socket_id room_id real
  | SendMessage socket_id room_id "string option"
  | Disconnect socket_id

fun handle :: "request \<Rightarrow> int \<Rightarrow> server \<Rightarrow> server" where
  "handle (PostRooms r) now st = fst (post_rooms st now r)"
| "handle (GetRooms r) now st = fst (get_rooms st now r)"
| "handle (JoinRoom s r u) now st = fst (on_join_room st now s r u)"
| "handle (VideoChangeReq s r sT vid u m) now st = fst (on_video_change st now s r sT vid u m)"
| "handle (PlayReq s r t) now st = fst (on_play st now s r t)"
| "handle (PauseReq s r t) now st = fst (on_pause st now s r t)"
| "handle (SeekReq s r t) now st = fst (on_seek st now s r t)"
| "handle (SendMessage s r txt) now st = fst (on_send_message st now s r txt)"
| "handle (Disconnect s) now st = fst (on_disconnect st now s)"

fun run :: "(int \<times> request) list \<Rightarrow> server \<Rightarrow> server" where
  "run [] st = st"
| "run ((now, q) # qs) st = run qs (handle q now st)"

fun admissible :: "request \<Rightarrow> server \<Rightarrow> bool" where
  "admissible (JoinRoom s r u) st = (s \<noteq> placeholder \<and> r \<noteq> [] \<and> sock_roomId st s = None)"
| "admissible _ st = True"

inductive reachable :: "server \<Rightarrow> bool" where
  start: "reachable fresh_server"
| step: "reachable st \<Longrightarrow> admissible q st \<Longrightarrow> reachable (handle q now st)"

text \<open>
  Invariants: no room of the registry is empty and the keys of its \<open>users\<close> map are
  distinct; a channel room lists a socket once; the channel room of a room id holds
  the real participants the registry has for it.
\<close>

definition rooms_ok :: "rooms \<Rightarrow> bool" where
  "rooms_ok rs = (\<forall>r room. rs r = Some room \<longrightarrow>
                    users room \<noteq> [] \<and> distinct (map fst (users room)))"

definition server_ok :: "server \<Rightarrow> bool" where
  "server_ok st = (rooms_ok (rooms st) \<and> (\<forall>r. distinct (members st r)))"

definition keys :: "rooms \<Rightarrow> room_id \<Rightarrow> socket_id set" where
  "keys rs r = (case rs r of None \<Rightarrow> {} | Some room \<Rightarrow> fst ` set (users room))"

definition consistent :: "server \<Rightarrow> bool" where
  "consistent st =
     ((\<forall>r. set (members st r) = keys (rooms st) r - {placeholder})
      \<and> (\<forall>s r. s \<in> set (members st r) \<longrightarrow> sock_roomId st s = Some r)
      \<and> (\<forall>s. sock_roomId st s \<noteq> Some []))"

section \<open>Drift compensation\<close>

text \<open>
  Claim C2. For an existing room, the live state read (\<open>getRoomState\<close>, as answered by
  \<open>GET /api/rooms/:roomId\<close> and sent in \<open>sync-state\<close>) reports the stored
  \<open>currentTime\<close> plus \<open>(now - lastUpdate) / 1000\<close> when the room is playing and exactly
  the stored \<open>currentTime\<close> when it is not, whatever time has passed; the read returns
  the server state as it found it.
\<close>

theorem live_state_drift:
  assumes "rooms st roomId = Some room"
  shows "\<exists>s. get_rooms st now roomId = (st, 200, Some s)
           \<and> getRoomState (rooms st) now roomId = Some s
           \<and> (isPlaying room \<longrightarrow>
                 s_currentTime s = currentTime room + real_of_int (now - lastUpdate room) / 1000)
           \<and> (\<not> isPlaying room \<longrightarrow> s_currentTime s = currentTime room)"
  using assms by (simp add: get_rooms_def getRoomState_def roomExists_def Let_def)

text \<open>The spec's example: 10.5 s stored at time 1000, read 5000 ms later while playing.\<close>

theorem live_state_drift_witness:
  "\<exists>s. get_rooms demo_server 6000 ''r1'' = (demo_server, 200, Some s)
       \<and> s_currentTime s = 15.5"
proof -
  have r: "rooms demo_server ''r1'' = Some demo_room"
    by (simp add: demo_server_def)
  from live_state_drift [OF r, of 6000] show ?thesis
    by (auto simp add: demo_room_def)
qed

section \<open>Source change\<close>

text \<open>
  Claim C3. After a \<open>video-change\<close> event is processed on an existing room, the room's
  \<open>currentTime\<close> is 0 and \<open>isPlaying\<close> is false, and the stored source fields are those
  of the new source (an absent or empty source type reads \<open>youtube\<close>, an absent or empty
  payload reads \<open>null\<close>). The handler is one step, so every state read that follows, at
  any time, shows the new source together with time 0 and the paused state: no snapshot
  mixes the old source with the new time or the new source with the old time.
\<close>

theorem source_change_resets:
  assumes "rooms st roomId = Some room"
  shows "\<exists>room'. rooms (fst (on_video_change st now sid roomId sT vid u m)) roomId = Some room'
           \<and> currentTime room' = 0 \<and> \<not> isPlaying room'
           \<and> sourceType room' = or_default ''youtube'' sT
           \<and> videoId room' = or_null vid \<and> url room' = or_null u \<and> magnetURI room' = or_null m
           \<and> (\<forall>now'. \<exists>s. getRoomState (rooms (fst (on_video_change st now sid roomId sT vid u m)))
                              now' roomId = Some s
                  \<and> s_currentTime s = 0 \<and> \<not> s_isPlaying s
                  \<and> s_sourceType s = or_default ''youtube'' sT
                  \<and> s_videoId s = or_null vid \<and> s_url s = or_null u \<and> s_magnetURI s = or_null m)"
  using assms
  by (simp add: on_video_change_def updateRoom_def getRoomState_def assign_def Let_def)

theorem source_change_resets_witness:
  "\<exists>room'. rooms (fst (on_video_change demo_server 7000 ''s1'' ''r1'' (Some ''url'') None
                            (Some ''http://example.org/a.mp4'') None)) ''r1'' = Some room'
      \<and> currentTime room' = 0 \<and> \<not> isPlaying room'
      \<and> sourceType room' = ''url'' \<and> videoId room' = None
      \<and> url room' = Some ''http://example.org/a.mp4'' \<and> magnetURI room' = None"
proof -
  have r: "rooms demo_server ''r1'' = Some demo_room"
    by (simp add: demo_server_def)
  from source_change_resets [OF r, of 7000 "''s1''" "Some ''url''" None
                               "Some ''http://example.org/a.mp4''" None]
  show ?thesis
    by (auto simp add: or_default_def or_null_def)
qed

section \<open>Seek detection\<close>

text \<open>
  Claim C8. On a poll tick at which the player reports position \<open>t\<close>: when \<open>t\<close> is more
  than 2 seconds away from the last observed position and no remote command is being
  applied, exactly one seek intent carrying \<open>t\<close> is emitted; when the distance is at
  most 2 seconds nothing is emitted; and the last observed position becomes \<open>t\<close> in
  every case, suppressed or not.
\<close>

theorem seek_poll_tick:
  "(\<bar>t - lastTimeRef c\<bar> > 2 \<and> \<not> isRemoteAction c \<longrightarrow>
      snd (poll_tick roomId (Some t) c) = [EmitSeek roomId t])
   \<and> (\<bar>t - lastTimeRef c\<bar> \<le> 2 \<longrightarrow> snd (poll_tick roomId (Some t) c) = [])
   \<and> lastTimeRef (fst (poll_tick roomId (Some t) c)) = t
   \<and> isRemoteAction (fst (poll_tick roomId (Some t) c)) = isRemoteAction c"
  by (simp add: poll_tick_def Let_def)

text \<open>The spec's examples: 20 s to 50 s emits one seek, 20 s to 21.5 s emits none.\<close>

theorem seek_poll_tick_witness:
  "snd (poll_tick ''r1'' (Some 50) \<lparr>lastTimeRef = 20, isRemoteAction = False\<rparr>) = [EmitSeek ''r1'' 50]
   \<and> snd (poll_tick ''r1'' (Some 21.5) \<lparr>lastTimeRef = 20, isRemoteAction = False\<rparr>) = []
   \<and> lastTimeRef (fst (poll_tick ''r1'' (Some 50) \<lparr>lastTimeRef = 20, isRemoteAction = True\<rparr>)) = 50"
  using seek_poll_tick [of 50 "\<lparr>lastTimeRef = 20, isRemoteAction = False\<rparr>" "''r1''"]
        seek_poll_tick [of "21.5" "\<lparr>lastTimeRef = 20, isRemoteAction = False\<rparr>" "''r1''"]
        seek_poll_tick [of 50 "\<lparr>lastTimeRef = 20, isRemoteAction = True\<rparr>" "''r1''"]
  by simp

section \<open>Facts about the association-list map\<close>

lemma map_delete_absent: "map_get k kvs = None \<Longrightarrow> map_delete k kvs = kvs"
  by (induction kvs) (auto simp add: map_delete_def map_get_def split: if_splits)

lemma map_get_delete: "map_get k (map_delete k' kvs) = (if k = k' then None else map_get k kvs)"
  by (induction kvs) (auto simp add: map_delete_def map_get_def)

lemma map_get_set: "map_get k (map_set k' v kvs) = (if k = k' then Some v else map_get k kvs)"
  by (induction kvs) (auto simp add: map_get_def)

lemma map_set_nonempty: "map_set k v kvs \<noteq> []"
  by (cases kvs) (auto split: if_splits)

lemma room_users_same: "room\<lparr>users := users room\<rparr> = room"
  by simp

section \<open>Leave and rejoin\<close>

text \<open>
  Claim C4. When the only participant of a room leaves, the participant is removed and
  the room is deleted (\<open>roomExists\<close> is false afterwards); a later join with the same
  room id creates a fresh room in the default state (source type \<open>youtube\<close>, no video
  id, url or magnet, time 0, paused), holding the joiner only. A leave that names an
  absent room, or a participant absent from a room that has participants, changes
  nothing and reports no name.
\<close>

theorem leave_rejoin:
  "(rs roomId = Some room \<and> users room = [(sid, name)] \<longrightarrow>
      leaveRoom rs roomId sid = (rs(roomId := None), 0, Some name)
      \<and> \<not> roomExists (fst (leaveRoom rs roomId sid)) roomId
      \<and> joinRoom (fst (leaveRoom rs roomId sid)) now roomId sid' uname =
          (rs(roomId \<mapsto>
             \<lparr> sourceType = ''youtube'', videoId = None, url = None, magnetURI = None,
               currentTime = 0, isPlaying = False, lastUpdate = now,
               users = [(sid', or_default ''Guest'' uname)] \<rparr>),
           \<lparr> sourceType = ''youtube'', videoId = None, url = None, magnetURI = None,
             currentTime = 0, isPlaying = False, lastUpdate = now,
             users = [(sid', or_default ''Guest'' uname)] \<rparr>))
   \<and> (rs roomId = None \<longrightarrow> leaveRoom rs roomId sid = (rs, 0, None))
   \<and> (rs roomId = Some room \<and> users room \<noteq> [] \<and> map_get sid (users room) = None \<longrightarrow>
        leaveRoom rs roomId sid = (rs, length (users room), None))"
proof (intro conjI impI)
  assume a: "rs roomId = Some room \<and> users room = [(sid, name)]"
  then show l: "leaveRoom rs roomId sid = (rs(roomId := None), 0, Some name)"
    by (simp add: leaveRoom_def map_get_def map_delete_def Let_def)
  show "\<not> roomExists (fst (leaveRoom rs roomId sid)) roomId"
    by (simp add: l roomExists_def)
  show "joinRoom (fst (leaveRoom rs roomId sid)) now roomId sid' uname =
          (rs(roomId \<mapsto>
             \<lparr> sourceType = ''youtube'', videoId = None, url = None, magnetURI = None,
               currentTime = 0, isPlaying = False, lastUpdate = now,
               users = [(sid', or_default ''Guest'' uname)] \<rparr>),
           \<lparr> sourceType = ''youtube'', videoId = None, url = None, magnetURI = None,
             currentTime = 0, isPlaying = False, lastUpdate = now,
             users = [(sid', or_default ''Guest'' uname)] \<rparr>)"
    by (simp add: l joinRoom_def createRoom_def Let_def)
next
  assume "rs roomId = None"
  then show "leaveRoom rs roomId sid = (rs, 0, None)"
    by (simp add: leaveRoom_def)
next
  assume a: "rs roomId = Some room \<and> users room \<noteq> [] \<and> map_get sid (users room) = None"
  then have d: "map_delete sid (users room) = users room"
    by (simp add: map_delete_absent)
  have "rs(roomId \<mapsto> room) = rs"
    using a by (simp add: map_upd_triv)
  with a d show "leaveRoom rs roomId sid = (rs, length (users room), None)"
    by (simp add: leaveRoom_def Let_def)
qed

text \<open>A room with the single participant \<open>s1\<close>.\<close>

theorem leave_rejoin_witness:
  "leaveRoom solo_rooms ''r1'' ''s1'' = (Map.empty, 0, Some ''ann'')
   \<and> snd (joinRoom (fst (leaveRoom solo_rooms ''r1'' ''s1'')) 9000 ''r1'' ''s7'' (Some ''dee'')) =
        \<lparr> sourceType = ''youtube'', videoId = None, url = None, magnetURI = None,
          currentTime = 0, isPlaying = False, lastUpdate = 9000, users = [(''s7'', ''dee'')] \<rparr>
   \<and> leaveRoom solo_rooms ''r2'' ''s1'' = (solo_rooms, 0, None)
   \<and> leaveRoom solo_rooms ''r1'' ''s9'' = (solo_rooms, 1, None)"
proof -
  let ?room = "demo_room\<lparr>users := [(''s1'', ''ann'')]\<rparr>"
  have r: "solo_rooms ''r1'' = Some ?room \<and> users ?room = [(''s1'', ''ann'')]"
    by (simp add: solo_rooms_def)
  have n: "solo_rooms ''r2'' = None"
    by (simp add: solo_rooms_def)
  have a: "solo_rooms ''r1'' = Some ?room \<and> users ?room \<noteq> [] \<and> map_get ''s9'' (users ?room) = None"
    by (simp add: solo_rooms_def map_get_def)
  have e: "solo_rooms(''r1'' := None) = Map.empty"
    by (simp add: solo_rooms_def)
  note t = leave_rejoin [of solo_rooms _ ?room _ "''ann''" 9000 "''s7''" "Some ''dee''"]
  note p1 = t [of "''r1''" "''s1''", THEN conjunct1, THEN mp, OF r]
  note p2 = t [of "''r2''" "''s1''", THEN conjunct2, THEN conjunct1, THEN mp, OF n]
  note p3 = t [of "''r1''" "''s9''", THEN conjunct2, THEN conjunct2, THEN mp, OF a]
  have c1: "leaveRoom solo_rooms ''r1'' ''s1'' = (Map.empty, 0, Some ''ann'')"
    using p1 [THEN conjunct1] e by simp
  have c2: "snd (joinRoom (fst (leaveRoom solo_rooms ''r1'' ''s1'')) 9000 ''r1'' ''s7'' (Some ''dee'')) =
        \<lparr> sourceType = ''youtube'', videoId = None, url = None, magnetURI = None,
          currentTime = 0, isPlaying = False, lastUpdate = 9000, users = [(''s7'', ''dee'')] \<rparr>"
    by (simp add: p1 [THEN conjunct2, THEN conjunct2] or_default_def)
  have c3: "leaveRoom solo_rooms ''r2'' ''s1'' = (solo_rooms, 0, None)"
    using p2 by simp
  have c4: "leaveRoom solo_rooms ''r1'' ''s9'' = (solo_rooms, 1, None)"
    using p3 by simp
  from c1 c2 c3 c4 show ?thesis by simp
qed


section \<open>The timestamp of the last update\<close>

text \<open>
  Claim C7 as stated fails for join and leave: joining the existing room \<open>r1\<close> at time
  5000, or leaving it, changes its \<open>users\<close> mapping and leaves \<open>lastUpdate\<close> at 1000.
\<close>

theorem lastUpdate_on_join_leave_counterexample:
  "map_option users (run_op (OpJoinRoom ''r1'' ''s3'' (Some ''cy'')) 5000 (rooms demo_server) ''r1'')
     = Some [(''s1'', ''ann''), (''s2'', ''bob''), (''s3'', ''cy'')]
   \<and> map_option lastUpdate (run_op (OpJoinRoom ''r1'' ''s3'' (Some ''cy'')) 5000 (rooms demo_server) ''r1'')
     = Some 1000
   \<and> map_option users (run_op (OpLeaveRoom ''r1'' ''s2'') 5000 (rooms demo_server) ''r1'')
     = Some [(''s1'', ''ann'')]
   \<and> map_option lastUpdate (run_op (OpLeaveRoom ''r1'' ''s2'') 5000 (rooms demo_server) ''r1'')
     = Some 1000"
  by (simp add: demo_server_def demo_room_def joinRoom_def leaveRoom_def or_default_def
        map_delete_def map_get_def Let_def)

text \<open>
  Claim C7, amended. \<open>updateRoom\<close> on an existing room (every playback or source update)
  sets \<open>lastUpdate\<close> to the current time, and a join that creates the room stamps it
  with the current time. A join into an existing room and a leave change the \<open>users\<close>
  mapping only, so \<open>lastUpdate\<close> stays as it was. No read operation changes the
  registry.
\<close>

theorem lastUpdate_refresh:
  "(rs r = Some room \<longrightarrow>
      map_option lastUpdate (run_op (OpUpdateRoom r upd) now rs r) = Some now)
   \<and> (rs r = None \<longrightarrow>
      map_option lastUpdate (run_op (OpJoinRoom r s u) now rs r) = Some now)
   \<and> (rs r = Some room \<longrightarrow>
      run_op (OpJoinRoom r s u) now rs r
        = Some (room\<lparr>users := map_set s (or_default ''Guest'' u) (users room)\<rparr>))
   \<and> (rs r = Some room \<longrightarrow>
      run_op (OpLeaveRoom r s) now rs r = None
      \<or> run_op (OpLeaveRoom r s) now rs r = Some (room\<lparr>users := map_delete s (users room)\<rparr>))
   \<and> (is_read op \<longrightarrow> run_op op now rs = rs)"
proof (intro conjI impI)
  assume "is_read op"
  then show "run_op op now rs = rs"
    by (cases op) simp_all
qed (simp_all add: updateRoom_def joinRoom_def createRoom_def leaveRoom_def Let_def)

theorem lastUpdate_refresh_witness:
  "map_option lastUpdate (run_op (OpUpdateRoom ''r1'' (no_updates\<lparr>u_isPlaying := Some False\<rparr>))
       5000 (rooms demo_server) ''r1'') = Some 5000
   \<and> map_option lastUpdate (run_op (OpJoinRoom ''r2'' ''s3'' None) 5000 (rooms demo_server) ''r2'')
       = Some 5000
   \<and> map_option lastUpdate (run_op (OpJoinRoom ''r1'' ''s3'' None) 5000 (rooms demo_server) ''r1'')
       = Some 1000
   \<and> run_op (OpGetRoomState ''r1'') 5000 (rooms demo_server) = rooms demo_server"
proof -
  have r: "rooms demo_server ''r1'' = Some demo_room"
    by (simp add: demo_server_def)
  have n: "rooms demo_server ''r2'' = None"
    by (simp add: demo_server_def)
  note t = lastUpdate_refresh [of "rooms demo_server" _ demo_room _ 5000 "''s3''" None]
  have c1: "map_option lastUpdate (run_op (OpUpdateRoom ''r1'' (no_updates\<lparr>u_isPlaying := Some False\<rparr>))
       5000 (rooms demo_server) ''r1'') = Some 5000"
    using t [THEN conjunct1, THEN mp, OF r] .
  have c2: "map_option lastUpdate (run_op (OpJoinRoom ''r2'' ''s3'' None) 5000 (rooms demo_server) ''r2'')
       = Some 5000"
    using t [THEN conjunct2, THEN conjunct1, THEN mp, OF n] .
  have c3: "map_option lastUpdate (run_op (OpJoinRoom ''r1'' ''s3'' None) 5000 (rooms demo_server) ''r1'')
       = Some 1000"
    using t [THEN conjunct2, THEN conjunct2, THEN conjunct1, THEN mp, OF r]
    by (simp add: demo_room_def)
  have c4: "run_op (OpGetRoomState ''r1'') 5000 (rooms demo_server) = rooms demo_server"
    using t [of _ _ "OpGetRoomState ''r1''", THEN conjunct2, THEN conjunct2, THEN conjunct2, THEN conjunct2]
    by simp
  from c1 c2 c3 c4 show ?thesis by simp
qed


section \<open>Routing of events\<close>

lemma length_filter_others:
  "distinct ms \<Longrightarrow> s \<in> set ms \<Longrightarrow> length (filter (\<lambda>x. x \<noteq> s) ms) = length ms - 1"
proof (induction ms)
  case Nil
  then show ?case by simp
next
  case (Cons m ms)
  show ?case
  proof (cases "m = s")
    case True
    with Cons.prems have "s \<notin> set ms" by simp
    then have "filter (\<lambda>x. x \<noteq> s) ms = ms"
      by (auto simp add: filter_id_conv)
    with True show ?thesis by simp
  next
    case False
    with Cons.prems have "s \<in> set ms" "distinct ms" by simp_all
    with Cons.IH have "length (filter (\<lambda>x. x \<noteq> s) ms) = length ms - 1" by simp
    moreover from \<open>s \<in> set ms\<close> have "length ms > 0" by (cases ms) auto
    ultimately show ?thesis using False by simp
  qed
qed

lemma socket_to_emit_relayed:
  assumes "distinct (members st r)" and "s \<in> set (members st r)"
  shows "relayed_to_others st s r ev (socket_to_emit st s r ev)"
  using assms
  by (auto simp add: relayed_to_others_def socket_to_emit_def comp_def length_filter_others
        distinct_map_filter)

lemma io_to_emit_delivered: "delivered_to_all st r ev (io_to_emit st r ev)"
  by (auto simp add: delivered_to_all_def io_to_emit_def comp_def)

text \<open>
  Claim C1. For a sender \<open>s\<close> that is one of the \<open>N\<close> sockets joined to room \<open>r\<close>, the
  play, pause, seek and video-change handlers relay their event to exactly the other
  members of the room (\<open>N - 1\<close> recipients, each once, never \<open>s\<close>), while a chat message
  (\<open>receive-message\<close>) and the users list go to all \<open>N\<close> members, \<open>s\<close> included.
\<close>

theorem relay_routing:
  assumes "distinct (members st r)" and "s \<in> set (members st r)"
  shows "relayed_to_others st s r (Play t) (snd (on_play st now s r t))
       \<and> relayed_to_others st s r (Pause t) (snd (on_pause st now s r t))
       \<and> relayed_to_others st s r (Seek t) (snd (on_seek st now s r t))
       \<and> relayed_to_others st s r (VideoChange sT vid u m)
            (snd (on_video_change st now s r sT vid u m))
       \<and> delivered_to_all st r
            (ReceiveMessage (or_default ''Guest'' (sock_username st s)) txt now)
            (snd (on_send_message st now s r txt))
       \<and> s \<in> set (map fst (snd (on_send_message st now s r txt)))
       \<and> delivered_to_all st r
            (UsersList (filter (\<lambda>u. fst u \<noteq> placeholder) (getUsersList (rooms st) r)))
            (broadcastUsersList st r)
       \<and> s \<in> set (map fst (broadcastUsersList st r))"
proof -
  note rel = socket_to_emit_relayed [OF assms]
  have all_s: "s \<in> fst ` set (io_to_emit st r ev)" for ev
    using assms(2) by (simp add: io_to_emit_def image_comp comp_def)
  show ?thesis
    by (simp add: on_play_def on_pause_def on_seek_def on_video_change_def on_send_message_def
          broadcastUsersList_def Let_def rel io_to_emit_delivered all_s)
qed

theorem relay_routing_witness:
  "snd (on_play demo_server 7000 ''s1'' ''r1'' 12) = [(''s2'', Play 12)]
   \<and> snd (on_send_message demo_server 7000 ''s1'' ''r1'' (Some ''hi'')) =
        [(''s1'', ReceiveMessage ''ann'' (Some ''hi'') 7000),
         (''s2'', ReceiveMessage ''ann'' (Some ''hi'') 7000)]
   \<and> relayed_to_others demo_server ''s1'' ''r1'' (Play 12) (snd (on_play demo_server 7000 ''s1'' ''r1'' 12))"
proof -
  have d: "distinct (members demo_server ''r1'')"
    by (simp add: demo_server_def)
  have m: "''s1'' \<in> set (members demo_server ''r1'')"
    by (simp add: demo_server_def)
  note t = relay_routing [OF d m, of 12 7000 None None None None "Some ''hi''"]
  have c1: "snd (on_play demo_server 7000 ''s1'' ''r1'' 12) = [(''s2'', Play 12)]"
    by (simp add: on_play_def socket_to_emit_def demo_server_def Let_def)
  have c2: "snd (on_send_message demo_server 7000 ''s1'' ''r1'' (Some ''hi'')) =
        [(''s1'', ReceiveMessage ''ann'' (Some ''hi'') 7000),
         (''s2'', ReceiveMessage ''ann'' (Some ''hi'') 7000)]"
    by (simp add: on_send_message_def io_to_emit_def demo_server_def or_default_def Let_def)
  from c1 c2 t [THEN conjunct1] show ?thesis by simp
qed

section \<open>The placeholder participant\<close>

lemma map_get_None_iff: "map_get k kvs = None \<longleftrightarrow> k \<notin> fst ` set kvs"
  by (simp add: map_get_def map_of_eq_None_iff)

lemma getUsersList_Some: "rs r = Some room \<Longrightarrow> getUsersList rs r = users room"
  by (simp add: getUsersList_def)

lemma joinRoom_registers:
  "\<exists>room'. fst (joinRoom rs now r s (Some n)) r = Some room'
           \<and> users room' = map_set s (or_default ''Guest'' (Some n))
                 (case rs r of None \<Rightarrow> [] | Some room \<Rightarrow> users room)"
  by (cases "rs r") (simp_all add: joinRoom_def createRoom_def Let_def)

lemma leaveRoom_other: "r' \<noteq> r \<Longrightarrow> fst (leaveRoom rs r' s) r = rs r"
  by (cases "rs r'") (simp_all add: leaveRoom_def Let_def)

lemma leaveRoom_keeps:
  assumes "rs r = Some room" and "map_get k (users room) = Some v" and "k \<noteq> s"
  shows "\<exists>room'. fst (leaveRoom rs r' s) r = Some room' \<and> map_get k (users room') = Some v"
proof (cases "r' = r")
  case True
  from assms(2,3) have g: "map_get k (map_delete s (users room)) = Some v"
    by (simp add: map_get_delete)
  then have "map_delete s (users room) \<noteq> []"
    by (auto simp add: map_get_def)
  with True assms(1) g show ?thesis
    by (simp add: leaveRoom_def Let_def)
next
  case False
  with assms show ?thesis by (simp add: leaveRoom_other)
qed

lemma leaveRoom_removes:
  "case fst (leaveRoom rs r s) r of None \<Rightarrow> True | Some room' \<Rightarrow> map_get s (users room') = None"
  by (cases "rs r") (simp_all add: leaveRoom_def Let_def map_get_delete)

lemma post_rooms_placeholder:
  "\<exists>room'. rooms (fst (post_rooms st now r)) r = Some room'
           \<and> map_get placeholder (users room') = Some ''__system__''"
  using joinRoom_registers [where rs = "rooms st" and now = now and r = r and s = placeholder
                               and n = "''__system__''"]
  by (auto simp add: post_rooms_def map_get_set or_default_def)

lemma on_disconnect_rooms:
  "rooms (fst (on_disconnect st now s)) =
     (case sock_roomId st s of
        None \<Rightarrow> rooms st
      | Some r' \<Rightarrow> if r' = [] then rooms st else fst (leaveRoom (rooms st) r' s))"
  by (simp add: on_disconnect_def socket_leave_all_def Let_def split: option.splits prod.splits)

lemma on_join_room_rooms:
  "rooms (fst (on_join_room st now s r u))
     = fst (joinRoom (fst (leaveRoom (rooms st) r placeholder)) now r s
              (Some (or_default ''Guest'' u)))"
  by (simp add: on_join_room_def socket_join_def Let_def)

lemma on_join_room_users:
  assumes "s \<noteq> placeholder"
  shows "\<exists>room'. rooms (fst (on_join_room st now s r u)) r = Some room'
           \<and> map_get placeholder (users room') = None
           \<and> map_get s (users room') = Some (or_default ''Guest'' u)"
proof -
  let ?rs1 = "fst (leaveRoom (rooms st) r placeholder)"
  let ?n = "or_default ''Guest'' u"
  have n: "or_default ''Guest'' (Some ?n) = ?n"
    by (simp add: or_default_def split: option.splits)
  from joinRoom_registers [where rs = ?rs1 and now = now and r = r and s = s and n = ?n]
  obtain room' where r': "fst (joinRoom ?rs1 now r s (Some ?n)) r = Some room'"
    and u': "users room' = map_set s ?n (case ?rs1 r of None \<Rightarrow> [] | Some room \<Rightarrow> users room)"
    using n by auto
  have "map_get placeholder (case ?rs1 r of None \<Rightarrow> [] | Some room \<Rightarrow> users room) = None"
    using leaveRoom_removes [where rs = "rooms st" and r = r and s = placeholder]
    by (auto simp add: map_get_def split: option.splits)
  with assms u' have "map_get placeholder (users room') = None"
    by (simp add: map_get_set)
  moreover from u' have "map_get s (users room') = Some ?n"
    by (simp add: map_get_set)
  ultimately show ?thesis
    using r' by (simp add: on_join_room_rooms)
qed

lemma broadcastUsersList_clean:
  "e \<in> set (broadcastUsersList st r) \<Longrightarrow> \<not> lists_placeholder (snd e)"
  by (auto simp add: broadcastUsersList_def io_to_emit_def Let_def)

lemma socket_to_emit_clean:
  "e \<in> set (socket_to_emit st s r (UserJoined n t)) \<Longrightarrow> \<not> lists_placeholder (snd e)"
  by (auto simp add: socket_to_emit_def)

lemma on_join_room_emits:
  "snd (on_join_room st now s r u) =
     [(s, SyncState (getRoomState (rooms (fst (on_join_room st now s r u))) now r))]
     @ socket_to_emit (fst (on_join_room st now s r u)) s r (UserJoined (or_default ''Guest'' u) now)
     @ broadcastUsersList (fst (on_join_room st now s r u)) r"
  by (simp add: on_join_room_def Let_def)

lemma on_join_room_clean:
  assumes "s \<noteq> placeholder" and "e \<in> set (snd (on_join_room st now s r u))"
  shows "\<not> lists_placeholder (snd e)"
proof -
  from on_join_room_users [OF assms(1), where st = st and now = now and r = r and u = u]
  obtain room' where r': "rooms (fst (on_join_room st now s r u)) r = Some room'"
    and p: "map_get placeholder (users room') = None" by blast
  let ?st2 = "fst (on_join_room st now s r u)"
  have sync: "\<not> lists_placeholder (SyncState (getRoomState (rooms ?st2) now r))"
    using r' p by (simp add: getRoomState_def getUsersList_def map_get_None_iff Let_def)
  from assms(2) have "e = (s, SyncState (getRoomState (rooms ?st2) now r))
      \<or> e \<in> set (socket_to_emit ?st2 s r (UserJoined (or_default ''Guest'' u) now))
      \<or> e \<in> set (broadcastUsersList ?st2 r)"
    by (subst (asm) on_join_room_emits) auto
  then show ?thesis
  proof (elim disjE)
    assume "e = (s, SyncState (getRoomState (rooms ?st2) now r))"
    with sync show ?thesis by simp
  next
    assume "e \<in> set (socket_to_emit ?st2 s r (UserJoined (or_default ''Guest'' u) now))"
    then show ?thesis by (rule socket_to_emit_clean)
  next
    assume "e \<in> set (broadcastUsersList ?st2 r)"
    then show ?thesis by (rule broadcastUsersList_clean)
  qed
qed

lemma on_disconnect_clean:
  assumes "e \<in> set (snd (on_disconnect st now s))"
  shows "\<not> lists_placeholder (snd e)"
proof (cases e)
  case (Pair a b)
  with assms show ?thesis
    using broadcastUsersList_clean [where e = "(a, b)"]
    by (auto simp add: on_disconnect_def Let_def io_to_emit_def
          split: option.splits prod.splits if_splits)
qed

text \<open>
  Claim C10. \<open>POST /api/rooms\<close> registers the participant \<open>__placeholder__\<close> named
  \<open>__system__\<close>, so the room exists and stays in the registry when any real socket
  disconnects. A join by a real socket first removes the placeholder and then registers
  the joiner: afterwards the room lists the joiner and not the placeholder. No event
  emitted by \<open>broadcastUsersList\<close>, by the join handler or by the disconnect handler
  carries a participant list with the placeholder in it.
\<close>

theorem placeholder_lifecycle:
  assumes "sid \<noteq> placeholder"
  shows "roomExists (rooms (fst (post_rooms st now r))) r
       \<and> map_get placeholder (getUsersList (rooms (fst (post_rooms st now r))) r)
           = Some ''__system__''
       \<and> roomExists (rooms (fst (on_disconnect (fst (post_rooms st now r)) now' sid))) r
       \<and> rooms (fst (on_join_room st now' sid r uname))
           = fst (joinRoom (fst (leaveRoom (rooms st) r placeholder)) now' r sid
                    (Some (or_default ''Guest'' uname)))
       \<and> map_get placeholder (getUsersList (rooms (fst (on_join_room st now' sid r uname))) r)
           = None
       \<and> map_get sid (getUsersList (rooms (fst (on_join_room st now' sid r uname))) r)
           = Some (or_default ''Guest'' uname)
       \<and> (\<forall>e \<in> set (broadcastUsersList st r). \<not> lists_placeholder (snd e))
       \<and> (\<forall>e \<in> set (snd (on_join_room st now' sid r uname)). \<not> lists_placeholder (snd e))
       \<and> (\<forall>e \<in> set (snd (on_disconnect st now' sid)). \<not> lists_placeholder (snd e))"
proof -
  let ?st1 = "fst (post_rooms st now r)"
  from post_rooms_placeholder [where st = st and now = now and r = r]
  obtain room1 where r1: "rooms ?st1 r = Some room1"
    and p1: "map_get placeholder (users room1) = Some ''__system__''" by blast
  have a: "roomExists (rooms ?st1) r"
    using r1 by (simp add: roomExists_def)
  have b: "map_get placeholder (getUsersList (rooms ?st1) r) = Some ''__system__''"
    using r1 p1 by (simp add: getUsersList_Some)
  have keep: "\<exists>room'. fst (leaveRoom (rooms ?st1) r' sid) r = Some room'" for r'
    using leaveRoom_keeps [where rs = "rooms ?st1" and r = r and room = room1
        and k = placeholder and v = "''__system__''" and s = sid and r' = r'] r1 p1 assms
    by auto
  have c: "roomExists (rooms (fst (on_disconnect ?st1 now' sid))) r"
    using keep r1
    by (auto simp add: on_disconnect_rooms roomExists_def split: option.splits)
  from on_join_room_users [OF assms, where st = st and now = now' and r = r and u = uname]
  obtain room2 where r2: "rooms (fst (on_join_room st now' sid r uname)) r = Some room2"
    and p2: "map_get placeholder (users room2) = None"
    and s2: "map_get sid (users room2) = Some (or_default ''Guest'' uname)" by blast
  have d: "map_get placeholder (getUsersList (rooms (fst (on_join_room st now' sid r uname))) r)
           = None"
    using r2 p2 by (simp add: getUsersList_Some)
  have e: "map_get sid (getUsersList (rooms (fst (on_join_room st now' sid r uname))) r)
           = Some (or_default ''Guest'' uname)"
    using r2 s2 by (simp add: getUsersList_Some)
  show ?thesis
    using a b c d e on_join_room_rooms broadcastUsersList_clean
      on_join_room_clean [OF assms] on_disconnect_clean
    by blast
qed

theorem placeholder_lifecycle_witness:
  "getUsersList (rooms precreated) ''ab12cd34'' = [(''__placeholder__'', ''__system__'')]
   \<and> roomExists (rooms (fst (on_disconnect precreated 2000 ''s1''))) ''ab12cd34''
   \<and> getUsersList (rooms (fst (on_join_room precreated 3000 ''s1'' ''ab12cd34'' (Some ''ann''))))
        ''ab12cd34'' = [(''s1'', ''ann'')]
   \<and> snd (on_join_room precreated 3000 ''s1'' ''ab12cd34'' (Some ''ann'')) =
        [(''s1'', SyncState (Some \<lparr> s_sourceType = ''youtube'', s_videoId = None, s_url = None,
             s_magnetURI = None, s_currentTime = 0, s_isPlaying = False, s_userCount = 1,
             s_users = [(''s1'', ''ann'')] \<rparr>)),
         (''s1'', UsersList [(''s1'', ''ann'')])]
   \<and> broadcastUsersList (precreated\<lparr>members := (\<lambda>r. [''s5''])\<rparr>) ''ab12cd34'' =
        [(''s5'', UsersList [])]"
proof -
  have ne: "''s1'' \<noteq> placeholder"
    by (simp add: placeholder_def)
  note t = placeholder_lifecycle [OF ne, of fresh_server 1000 "''ab12cd34''" 2000 "Some ''ann''"]
  have pre: "rooms precreated = Map.empty(''ab12cd34'' \<mapsto>
       \<lparr> sourceType = ''youtube'', videoId = None, url = None, magnetURI = None,
         currentTime = 0, isPlaying = False, lastUpdate = 1000,
         users = [(''__placeholder__'', ''__system__'')] \<rparr>)"
    by (simp add: precreated_def post_rooms_def fresh_server_def joinRoom_def createRoom_def
          placeholder_def or_default_def Let_def)
  have c1: "getUsersList (rooms precreated) ''ab12cd34'' = [(''__placeholder__'', ''__system__'')]"
    by (simp add: pre getUsersList_def)
  have c2: "roomExists (rooms (fst (on_disconnect precreated 2000 ''s1''))) ''ab12cd34''"
    using t [THEN conjunct2, THEN conjunct2, THEN conjunct1] by (simp add: precreated_def)
  have j: "on_join_room precreated 3000 ''s1'' ''ab12cd34'' (Some ''ann'') =
      (\<lparr> rooms = Map.empty(''ab12cd34'' \<mapsto>
           \<lparr> sourceType = ''youtube'', videoId = None, url = None, magnetURI = None,
             currentTime = 0, isPlaying = False, lastUpdate = 3000,
             users = [(''s1'', ''ann'')] \<rparr>),
         members = (\<lambda>r. [])(''ab12cd34'' := [''s1'']),
         sock_roomId = Map.empty(''s1'' \<mapsto> ''ab12cd34''),
         sock_username = Map.empty(''s1'' \<mapsto> ''ann'') \<rparr>,
       [(''s1'', SyncState (Some \<lparr> s_sourceType = ''youtube'', s_videoId = None, s_url = None,
             s_magnetURI = None, s_currentTime = 0, s_isPlaying = False, s_userCount = 1,
             s_users = [(''s1'', ''ann'')] \<rparr>)),
         (''s1'', UsersList [(''s1'', ''ann'')])])"
  proof -
    have pc: "precreated = \<lparr> rooms = Map.empty(''ab12cd34'' \<mapsto>
       \<lparr> sourceType = ''youtube'', videoId = None, url = None, magnetURI = None,
         currentTime = 0, isPlaying = False, lastUpdate = 1000,
         users = [(''__placeholder__'', ''__system__'')] \<rparr>),
       members = (\<lambda>r. []), sock_roomId = Map.empty, sock_username = Map.empty \<rparr>"
      by (simp add: precreated_def post_rooms_def fresh_server_def joinRoom_def createRoom_def
          placeholder_def or_default_def Let_def)
    have l: "fst (leaveRoom (rooms precreated) ''ab12cd34'' placeholder) = Map.empty"
      by (simp add: pc leaveRoom_def map_delete_def map_get_def placeholder_def Let_def)
    have jr: "fst (joinRoom Map.empty 3000 ''ab12cd34'' ''s1'' (Some ''ann'')) =
       Map.empty(''ab12cd34'' \<mapsto>
           \<lparr> sourceType = ''youtube'', videoId = None, url = None, magnetURI = None,
             currentTime = 0, isPlaying = False, lastUpdate = 3000,
             users = [(''s1'', ''ann'')] \<rparr>)"
      by (simp add: joinRoom_def createRoom_def or_default_def Let_def)
    show ?thesis
      unfolding on_join_room_def
      apply (simp only: Let_def)
      apply (simp add: socket_join_def l or_default_def jr)
      apply (simp add: pc getRoomState_def getUsersList_def broadcastUsersList_def
          io_to_emit_def socket_to_emit_def placeholder_def Let_def)
      done
  qed
  have c5: "broadcastUsersList (precreated\<lparr>members := (\<lambda>r. [''s5''])\<rparr>) ''ab12cd34'' =
        [(''s5'', UsersList [])]"
    by (simp add: broadcastUsersList_def io_to_emit_def pre getUsersList_def placeholder_def Let_def)
  from c1 c2 j c5 show ?thesis
    by (simp add: getUsersList_def)
qed

section \<open>Decimal strings and the range parser\<close>

text \<open>
  A run of decimal digits that writes a number of the exact range is read back as
  that number, and such a number prints as its digits.
\<close>

lemma of_char_digit_char: "d < 10 \<Longrightarrow> (of_char (digit_char d) :: nat) = 48 + d"
  by (simp add: digit_char_def)

lemma is_digit_digit_char: "d < 10 \<Longrightarrow> is_digit (digit_char d)"
  by (simp add: is_digit_def of_char_digit_char)

lemma digit_val_digit_char: "d < 10 \<Longrightarrow> digit_val (digit_char d) = d"
  by (simp add: digit_val_def of_char_digit_char)

lemma is_digit_not_sign: "is_digit c \<Longrightarrow> c \<noteq> CHR ''-'' \<and> c \<noteq> CHR ''+''"
  by (auto simp add: is_digit_def)

lemma dec_digits: "\<forall>c \<in> set (dec n). is_digit c"
proof (induction n rule: dec.induct)
  case (1 n)
  then show ?case
    by (subst dec.simps) (auto simp add: is_digit_digit_char)
qed

lemma dec_nonempty: "dec n \<noteq> []"
  by (subst dec.simps) simp

lemma digits_val_snoc: "digits_val acc (cs @ [c]) = 10 * digits_val acc cs + digit_val c"
  by (induction cs arbitrary: acc) simp_all

lemma digits_val_dec: "digits_val 0 (dec n) = n"
proof (induction n rule: dec.induct)
  case (1 n)
  show ?case
  proof (cases "n < 10")
    case True
    then show ?thesis
      by (subst dec.simps) (simp add: digit_val_digit_char)
  next
    case False
    with 1 have "digits_val 0 (dec (n div 10)) = n div 10" by simp
    with False show ?thesis
      by (subst dec.simps) (simp add: digits_val_snoc digit_val_digit_char)
  qed
qed

lemma to_num_nat: "int n \<le> 2 ^ 53 \<Longrightarrow> to_num (int n) = Num (int n)"
  by (simp add: to_num_def exact_def)

lemma parseInt_dec:
  assumes "int n \<le> 2 ^ 53"
  shows "parseInt (dec n) = Num (int n)"
proof -
  obtain c cs where d: "dec n = c # cs"
    using dec_nonempty [of n] by (cases "dec n") auto
  have dig: "\<forall>x \<in> set (dec n). is_digit x" by (rule dec_digits)
  with d have c: "is_digit c" by simp
  then have ns: "\<not> is_space c"
    by (auto simp add: is_digit_def is_space_def)
  from c have sg: "c \<noteq> CHR ''-'' \<and> c \<noteq> CHR ''+''" by (rule is_digit_not_sign)
  have tw: "takeWhile is_digit (dec n) = dec n"
    using dig by (simp add: takeWhile_eq_all_conv)
  have "parseInt (c # cs) = to_num (int (digits_val 0 (c # cs)))"
    using ns sg tw d by (simp add: parseInt_def Let_def del: digits_val.simps)
  moreover have "digits_val 0 (c # cs) = n"
    using digits_val_dec [of n] unfolding d .
  ultimately show ?thesis
    unfolding d using assms by (simp add: to_num_nat del: digits_val.simps)
qed

lemma split_on_no_sep: "d \<notin> set xs \<Longrightarrow> split_on d xs = [xs]"
  by (induction xs) auto

lemma split_on_first: "d \<notin> set xs \<Longrightarrow> split_on d (xs @ d # ys) = xs # split_on d ys"
  by (induction xs) auto

lemma dec_no_dash: "CHR ''-'' \<notin> set (dec n)"
  using dec_digits [of n] is_digit_not_sign by blast

lemma replace_bytes: "replace_first ''bytes='' [] (''bytes='' @ rest) = rest"
  by simp

lemma num_str_nat: "int n \<le> 2 ^ 53 \<Longrightarrow> num_str (Num (int n)) = Some (dec n)"
  by (simp add: num_str_def exact_def)

lemma f_length_range: "0 \<le> f_length f \<and> f_length f < 2 ^ 53"
  using uint_lt2p [of "f_bytes f"] by (simp add: f_length_def)

lemma stream_range_both:
  assumes "activeFile g = Some f" and "int a \<le> 2 ^ 53" and "int b \<le> 2 ^ 53"
  shows "get_torrent_stream g (Some (''bytes='' @ dec a @ ''-'' @ dec b)) =
     \<lparr> status = 206,
       headers = [(''Content-Range'',
                     content_range (Num (int a)) (Num (int b)) (Num (f_length f))),
                  (''Accept-Ranges'', HStr ''bytes''),
                  (''Content-Length'', HNum (to_num (int b - int a + 1))),
                  (''Content-Type'', HStr (contentType_of (f_name f)))],
       body = FileStream (Some (Num (int a), Num (int b))) \<rparr>"
proof -
  have sp: "split_on (CHR ''-'') (dec a @ ''-'' @ dec b) = [dec a, dec b]"
    by (simp add: split_on_first split_on_no_sep dec_no_dash)
  have tr: "truthy (Some (''bytes='' @ dec a @ ''-'' @ dec b))"
    by (simp add: truthy_def)
  have rp: "replace_first ''bytes='' [] (''bytes='' @ dec a @ ''-'' @ dec b) = dec a @ ''-'' @ dec b"
    by (rule replace_bytes)
  have ex: "exact (int b - int a)" "exact (int a)" "exact (int b)" "exact 1"
    using assms(2,3) by (simp_all add: exact_def abs_le_iff)
  show ?thesis
    unfolding get_torrent_stream_def
    by (simp only: assms(1) option.case Let_def tr if_True rp sp index_opt.simps One_nat_def)
       (simp add: parseInt_dec [OF assms(2)] parseInt_dec [OF assms(3)] dec_nonempty
          js_add_def js_sub_def to_num_def ex)
qed

lemma stream_range_open:
  assumes "activeFile g = Some f" and "int a < 2 ^ 53"
  shows "get_torrent_stream g (Some (''bytes='' @ dec a @ ''-'')) =
     \<lparr> status = 206,
       headers = [(''Content-Range'',
                     content_range (Num (int a)) (Num (f_length f - 1)) (Num (f_length f))),
                  (''Accept-Ranges'', HStr ''bytes''),
                  (''Content-Length'', HNum (to_num (f_length f - 1 - int a + 1))),
                  (''Content-Type'', HStr (contentType_of (f_name f)))],
       body = FileStream (Some (Num (int a), Num (f_length f - 1))) \<rparr>"
proof -
  have sp: "split_on (CHR ''-'') (dec a @ ''-'') = [dec a, []]"
    by (simp add: split_on_first dec_no_dash)
  have tr: "truthy (Some (''bytes='' @ dec a @ ''-''))"
    by (simp add: truthy_def)
  have rp: "replace_first ''bytes='' [] (''bytes='' @ dec a @ ''-'') = dec a @ ''-''"
    by (rule replace_bytes)
  have e1: "exact (f_length f - 1)"
    using f_length_range [of f] by (simp add: exact_def abs_le_iff)
  have e2: "exact (f_length f - 1 - int a)" "exact (int a)" "exact (f_length f)" "exact 1"
    using f_length_range [of f] assms(2) by (simp_all add: exact_def abs_le_iff)
  from assms(2) have le: "int a \<le> 2 ^ 53" by simp
  show ?thesis
    unfolding get_torrent_stream_def
    by (simp only: assms(1) option.case Let_def tr if_True rp sp index_opt.simps One_nat_def)
       (simp add: parseInt_dec [OF le] js_add_def js_sub_def to_num_def e1 e2)
qed

lemma stream_no_range:
  assumes "activeFile g = Some f"
  shows "get_torrent_stream g None =
     \<lparr> status = 200,
       headers = [(''Content-Length'', HNum (Num (f_length f))),
                  (''Content-Type'', HStr (contentType_of (f_name f))),
                  (''Accept-Ranges'', HStr ''bytes'')],
       body = FileStream None \<rparr>"
  using assms by (simp add: get_torrent_stream_def truthy_def Let_def)

lemma content_range_nat:
  assumes "int a \<le> 2 ^ 53" and "int b \<le> 2 ^ 53" and "int c \<le> 2 ^ 53"
  shows "content_range (Num (int a)) (Num (int b)) (Num (int c))
           = HStr (''bytes '' @ dec a @ ''-'' @ dec b @ ''/'' @ dec c)"
  unfolding content_range_def num_str_nat [OF assms(1)] num_str_nat [OF assms(2)]
    num_str_nat [OF assms(3)]
  by simp

section \<open>Range streaming\<close>

text \<open>
  Claim C5. With a selected file of length \<open>L\<close>: a request with header
  \<open>Range: bytes=a-b\<close>, where \<open>a \<le> b \<le> L - 1\<close>, is answered with status 206,
  \<open>Content-Range: bytes a-b/L\<close>, \<open>Content-Length\<close> equal to \<open>b - a + 1\<close> and
  \<open>Accept-Ranges: bytes\<close>, and the stream is asked for exactly that span; with the end
  omitted (\<open>bytes=a-\<close>) the end is \<open>L - 1\<close>; with no \<open>Range\<close> header the answer has
  status 200 and \<open>Content-Length\<close> equal to \<open>L\<close>.
\<close>

theorem range_streaming:
  assumes "activeFile g = Some f" and "f_length f = int L"
  shows "(a \<le> b \<and> int b \<le> int L - 1 \<longrightarrow>
          status (get_torrent_stream g (Some (''bytes='' @ dec a @ ''-'' @ dec b))) = 206
          \<and> header (get_torrent_stream g (Some (''bytes='' @ dec a @ ''-'' @ dec b)))
                ''Content-Range''
              = Some (HStr (''bytes '' @ dec a @ ''-'' @ dec b @ ''/'' @ dec L))
          \<and> header (get_torrent_stream g (Some (''bytes='' @ dec a @ ''-'' @ dec b)))
                ''Content-Length''
              = Some (HNum (Num (int b - int a + 1)))
          \<and> header (get_torrent_stream g (Some (''bytes='' @ dec a @ ''-'' @ dec b)))
                ''Accept-Ranges''
              = Some (HStr ''bytes'')
          \<and> body (get_torrent_stream g (Some (''bytes='' @ dec a @ ''-'' @ dec b)))
              = FileStream (Some (Num (int a), Num (int b))))
       \<and> (int a \<le> int L - 1 \<longrightarrow>
          status (get_torrent_stream g (Some (''bytes='' @ dec a @ ''-''))) = 206
          \<and> header (get_torrent_stream g (Some (''bytes='' @ dec a @ ''-''))) ''Content-Range''
              = Some (HStr (''bytes '' @ dec a @ ''-'' @ dec (L - 1) @ ''/'' @ dec L))
          \<and> header (get_torrent_stream g (Some (''bytes='' @ dec a @ ''-''))) ''Content-Length''
              = Some (HNum (Num (int (L - 1) - int a + 1)))
          \<and> header (get_torrent_stream g (Some (''bytes='' @ dec a @ ''-''))) ''Accept-Ranges''
              = Some (HStr ''bytes'')
          \<and> body (get_torrent_stream g (Some (''bytes='' @ dec a @ ''-'')))
              = FileStream (Some (Num (int a), Num (int (L - 1)))))
       \<and> status (get_torrent_stream g None) = 200
       \<and> header (get_torrent_stream g None) ''Content-Length'' = Some (HNum (Num (int L)))
       \<and> header (get_torrent_stream g None) ''Accept-Ranges'' = Some (HStr ''bytes'')
       \<and> body (get_torrent_stream g None) = FileStream None"
proof -
  from assms(2) f_length_range [of f] have L: "int L < 2 ^ 53" by simp
  have both: "status (get_torrent_stream g (Some (''bytes='' @ dec a @ ''-'' @ dec b))) = 206
      \<and> header (get_torrent_stream g (Some (''bytes='' @ dec a @ ''-'' @ dec b)))
            ''Content-Range''
          = Some (HStr (''bytes '' @ dec a @ ''-'' @ dec b @ ''/'' @ dec L))
      \<and> header (get_torrent_stream g (Some (''bytes='' @ dec a @ ''-'' @ dec b)))
            ''Content-Length''
          = Some (HNum (Num (int b - int a + 1)))
      \<and> header (get_torrent_stream g (Some (''bytes='' @ dec a @ ''-'' @ dec b)))
            ''Accept-Ranges''
          = Some (HStr ''bytes'')
      \<and> body (get_torrent_stream g (Some (''bytes='' @ dec a @ ''-'' @ dec b)))
          = FileStream (Some (Num (int a), Num (int b)))"
    if h: "a \<le> b \<and> int b \<le> int L - 1"
  proof -
    from h L have a: "int a \<le> 2 ^ 53" and b: "int b \<le> 2 ^ 53" and l: "int L \<le> 2 ^ 53"
      by linarith+
    have "exact (int b - int a + 1)"
      unfolding exact_def using h L by linarith
    then have n: "to_num (int b - int a + 1) = Num (int b - int a + 1)"
      by (simp only: to_num_def if_True)
    show ?thesis
      unfolding stream_range_both [OF assms(1) a b] assms(2) content_range_nat [OF a b l] n
      by (simp add: header_def)
  qed
  have open': "status (get_torrent_stream g (Some (''bytes='' @ dec a @ ''-''))) = 206
      \<and> header (get_torrent_stream g (Some (''bytes='' @ dec a @ ''-''))) ''Content-Range''
          = Some (HStr (''bytes '' @ dec a @ ''-'' @ dec (L - 1) @ ''/'' @ dec L))
      \<and> header (get_torrent_stream g (Some (''bytes='' @ dec a @ ''-''))) ''Content-Length''
          = Some (HNum (Num (int (L - 1) - int a + 1)))
      \<and> header (get_torrent_stream g (Some (''bytes='' @ dec a @ ''-''))) ''Accept-Ranges''
          = Some (HStr ''bytes'')
      \<and> body (get_torrent_stream g (Some (''bytes='' @ dec a @ ''-'')))
          = FileStream (Some (Num (int a), Num (int (L - 1))))"
    if h: "int a \<le> int L - 1"
  proof -
    from h have pos: "0 < L" by linarith
    then have L1: "int L - 1 = int (L - 1)" by simp
    from h L have a: "int a < 2 ^ 53" and a': "int a \<le> 2 ^ 53"
      and l: "int L \<le> 2 ^ 53" and l1: "int (L - 1) \<le> 2 ^ 53"
      by linarith+
    have "exact (int (L - 1) - int a + 1)"
      unfolding exact_def using h L pos by linarith
    then have n: "to_num (int (L - 1) - int a + 1) = Num (int (L - 1) - int a + 1)"
      by (simp only: to_num_def if_True)
    show ?thesis
      unfolding stream_range_open [OF assms(1) a] assms(2) L1 content_range_nat [OF a' l1 l] n
      by (simp add: header_def)
  qed
  have none: "status (get_torrent_stream g None) = 200
       \<and> header (get_torrent_stream g None) ''Content-Length'' = Some (HNum (Num (int L)))
       \<and> header (get_torrent_stream g None) ''Accept-Ranges'' = Some (HStr ''bytes'')
       \<and> body (get_torrent_stream g None) = FileStream None"
    unfolding stream_no_range [OF assms(1)] assms(2) by (simp add: header_def)
  show ?thesis
    apply (rule conjI)
     apply (rule impI)
     apply (rule both, assumption)
    apply (rule conjI)
     apply (rule impI)
     apply (rule open', assumption)
    apply (rule none)
    done
qed

text \<open>The spec's example: a file of 10000 bytes and \<open>bytes=1000-1999\<close>.\<close>

theorem range_streaming_witness:
  "status (get_torrent_stream demo_gateway (Some ''bytes=1000-1999'')) = 206
   \<and> header (get_torrent_stream demo_gateway (Some ''bytes=1000-1999'')) ''Content-Range''
       = Some (HStr ''bytes 1000-1999/10000'')
   \<and> header (get_torrent_stream demo_gateway (Some ''bytes=1000-1999'')) ''Content-Length''
       = Some (HNum (Num 1000))
   \<and> header (get_torrent_stream demo_gateway (Some ''bytes=1000-'')) ''Content-Range''
       = Some (HStr ''bytes 1000-9999/10000'')
   \<and> status (get_torrent_stream demo_gateway None) = 200
   \<and> header (get_torrent_stream demo_gateway None) ''Content-Length'' = Some (HNum (Num 10000))"
proof -
  have f: "activeFile demo_gateway = Some demo_file"
    by (simp add: demo_gateway_def)
  have l: "f_length demo_file = int 10000"
    by (simp add: demo_file_def f_length_def)
  have o: "(1000::nat) \<le> 1999 \<and> int 1999 \<le> int 10000 - 1" by simp
  have b: "int 1000 \<le> int 10000 - 1" by simp
  have d1: "dec 1000 = ''1000''"
    by (simp add: dec.simps digit_char_def char_of_eq_iff)
  have d2: "dec 1999 = ''1999''"
    by (simp add: dec.simps digit_char_def char_of_eq_iff)
  have d3: "dec 10000 = ''10000''"
    by (simp add: dec.simps digit_char_def char_of_eq_iff)
  have d4: "dec (10000 - 1) = ''9999''"
    by (simp add: dec.simps digit_char_def char_of_eq_iff)
  note t = range_streaming [OF f l, of 1000 1999]
  note t1 = t [THEN conjunct1, THEN mp, OF o, unfolded d1 d2 d3]
  note t2 = t [THEN conjunct2, THEN conjunct1, THEN mp, OF b, unfolded d1 d3 d4]
  note t3 = t [THEN conjunct2, THEN conjunct2]
  from t1 t2 t3 show ?thesis by simp
qed

text \<open>
  Claim C6 as stated fails: a range that starts beyond the end of the file, or that ends
  before it starts, is answered with status 206 and headers computed from the parsed
  bounds, not with a "range not satisfiable" error.
\<close>

theorem range_outside_file_counterexample:
  "status (get_torrent_stream demo_gateway (Some ''bytes=20000-'')) = 206
   \<and> header (get_torrent_stream demo_gateway (Some ''bytes=20000-'')) ''Content-Range''
       = Some (HStr ''bytes 20000-9999/10000'')
   \<and> header (get_torrent_stream demo_gateway (Some ''bytes=20000-'')) ''Content-Length''
       = Some (HNum (Num (- 10000)))
   \<and> status (get_torrent_stream demo_gateway (Some ''bytes=500-100'')) = 206
   \<and> header (get_torrent_stream demo_gateway (Some ''bytes=500-100'')) ''Content-Range''
       = Some (HStr ''bytes 500-100/10000'')
   \<and> header (get_torrent_stream demo_gateway (Some ''bytes=500-100'')) ''Content-Length''
       = Some (HNum (Num (- 399)))"
proof -
  have f: "activeFile demo_gateway = Some demo_file"
    by (simp add: demo_gateway_def)
  have l: "f_length demo_file = 10000"
    by (simp add: demo_file_def f_length_def)
  have d1: "dec 20000 = ''20000''"
    by (simp add: dec.simps digit_char_def char_of_eq_iff)
  have d2: "dec 500 = ''500''"
    by (simp add: dec.simps digit_char_def char_of_eq_iff)
  have d3: "dec 100 = ''100''"
    by (simp add: dec.simps digit_char_def char_of_eq_iff)
  have d4: "dec 10000 = ''10000''"
    by (simp add: dec.simps digit_char_def char_of_eq_iff)
  have d5: "dec 9999 = ''9999''"
    by (simp add: dec.simps digit_char_def char_of_eq_iff)
  have e1: "''bytes=20000-'' = ''bytes='' @ dec 20000 @ ''-''"
    by (simp add: d1)
  have e2: "''bytes=500-100'' = ''bytes='' @ dec 500 @ ''-'' @ dec 100"
    by (simp add: d2 d3)
  have b1: "int 20000 < 2 ^ 53" and b2: "int 500 \<le> 2 ^ 53" and b3: "int 100 \<le> 2 ^ 53"
    by simp_all
  have c1: "content_range (Num (int 20000)) (Num (10000 - 1)) (Num 10000)
              = HStr ''bytes 20000-9999/10000''"
    by (simp add: content_range_def num_str_def exact_def d1 d4 d5)
  have c2: "content_range (Num (int 500)) (Num (int 100)) (Num 10000)
              = HStr ''bytes 500-100/10000''"
    by (simp add: content_range_def num_str_def exact_def d2 d3 d4)
  show ?thesis
    unfolding e1 e2 stream_range_open [OF f b1] stream_range_both [OF f b2 b3] l c1 c2
    by (simp add: header_def to_num_def exact_def)
qed

text \<open>
  Claim C6, amended. The stream endpoint does not validate the requested range. Its
  only statuses are 404 (no file selected), 200 (no range) and 206 (a non-empty
  \<open>Range\<close> header); the answer is never 416. With a selected file, a request for
  \<open>bytes=a-b\<close> is answered 206 and the file is asked for the span from \<open>a\<close> to \<open>b\<close> as
  parsed, wherever that span lies with respect to the file and whichever bound is the
  larger (for bounds that are read exactly, below \<open>2^53\<close>).
\<close>

theorem range_never_rejected:
  "status (get_torrent_stream g range') =
     (if activeFile g = None then 404 else if truthy range' then 206 else 200)
   \<and> status (get_torrent_stream g range') \<noteq> 416
   \<and> (activeFile g = Some f \<and> int a < 2 ^ 53 \<and> int b < 2 ^ 53 \<longrightarrow>
        status (get_torrent_stream g (Some (''bytes='' @ dec a @ ''-'' @ dec b))) = 206
        \<and> body (get_torrent_stream g (Some (''bytes='' @ dec a @ ''-'' @ dec b)))
            = FileStream (Some (Num (int a), Num (int b))))"
proof -
  have s: "status (get_torrent_stream g range') =
     (if activeFile g = None then 404 else if truthy range' then 206 else 200)"
    by (cases "activeFile g") (simp_all add: get_torrent_stream_def Let_def)
  then have n: "status (get_torrent_stream g range') \<noteq> 416"
    by simp
  have p: "status (get_torrent_stream g (Some (''bytes='' @ dec a @ ''-'' @ dec b))) = 206
        \<and> body (get_torrent_stream g (Some (''bytes='' @ dec a @ ''-'' @ dec b)))
            = FileStream (Some (Num (int a), Num (int b)))"
    if h: "activeFile g = Some f \<and> int a < 2 ^ 53 \<and> int b < 2 ^ 53"
  proof -
    from h have f: "activeFile g = Some f" and a: "int a \<le> 2 ^ 53" and b: "int b \<le> 2 ^ 53"
      by simp_all
    show ?thesis
      unfolding stream_range_both [OF f a b] by simp
  qed
  show ?thesis
    apply (rule conjI)
     apply (rule s)
    apply (rule conjI)
     apply (rule n)
    apply (rule impI)
    apply (rule p, assumption)
    done
qed

theorem range_never_rejected_witness:
  "status (get_torrent_stream demo_gateway (Some ''bytes=99999-'')) = 206
   \<and> status (get_torrent_stream idle_gateway (Some ''bytes=0-1'')) = 404
   \<and> body (get_torrent_stream demo_gateway (Some ''bytes=500-100''))
       = FileStream (Some (Num 500, Num 100))"
proof -
  have d2: "dec 500 = ''500''"
    by (simp add: dec.simps digit_char_def char_of_eq_iff)
  have d3: "dec 100 = ''100''"
    by (simp add: dec.simps digit_char_def char_of_eq_iff)
  have e2: "''bytes=500-100'' = ''bytes='' @ dec 500 @ ''-'' @ dec 100"
    by (simp add: d2 d3)
  have h: "activeFile demo_gateway = Some demo_file \<and> int 500 < 2 ^ 53 \<and> int 100 < 2 ^ 53"
    by (simp add: demo_gateway_def)
  have c1: "status (get_torrent_stream demo_gateway (Some ''bytes=99999-'')) = 206"
    using range_never_rejected [of demo_gateway "Some ''bytes=99999-''", THEN conjunct1]
    by (simp add: demo_gateway_def truthy_def)
  have c2: "status (get_torrent_stream idle_gateway (Some ''bytes=0-1'')) = 404"
    using range_never_rejected [of idle_gateway "Some ''bytes=0-1''", THEN conjunct1]
    by (simp add: idle_gateway_def)
  have c3: "body (get_torrent_stream demo_gateway (Some ''bytes=500-100''))
       = FileStream (Some (Num 500, Num 100))"
    unfolding e2
    using range_never_rejected [where g = demo_gateway and f = demo_file and a = 500 and b = 100,
        THEN conjunct2, THEN conjunct2, THEN mp, OF h, THEN conjunct2]
    by simp
  from c1 c2 c3 show ?thesis by simp
qed

section \<open>Starting a transfer\<close>

text \<open>
  Claim C9, evaluated on the code. While the first transfer for magnet \<open>A\<close> is still
  connecting (the status endpoint says \<open>connecting\<close>), a second add of \<open>A\<close> is not
  answered \<open>already-active\<close>: the library is asked to add \<open>A\<close> again. An add of another
  magnet \<open>B\<close> in that state makes no remove call, so the pending transfer of \<open>A\<close> is not
  cancelled, and when its metadata arrives the module holds the torrent of \<open>A\<close> under
  the magnet \<open>B\<close>. Once the metadata of \<open>A\<close> has arrived, a second add of \<open>A\<close> is
  answered \<open>already-active\<close> without any call, and an add of \<open>B\<close> removes the torrent
  of \<open>A\<close> before adding \<open>B\<close>.
\<close>

theorem add_while_connecting:
  "get_torrent_status connecting_A = (''connecting'', False)
   \<and> post_torrent_add connecting_A (Some magnet_A)
       = (connecting_A, [ClientAdd magnet_A], 200, ''adding'')
   \<and> post_torrent_add connecting_A (Some magnet_B)
       = (connecting_A\<lparr>activeMagnet := Some magnet_B\<rparr>, [ClientAdd magnet_B], 200, ''adding'')
   \<and> activeMagnet (on_torrent (fst (post_torrent_add connecting_A (Some magnet_B))) torrent_A)
       = Some magnet_B
   \<and> activeTorrent (on_torrent (fst (post_torrent_add connecting_A (Some magnet_B))) torrent_A)
       = Some torrent_A
   \<and> post_torrent_add (on_torrent connecting_A torrent_A) (Some magnet_A)
       = (on_torrent connecting_A torrent_A, [], 200, ''already-active'')
   \<and> snd (post_torrent_add (on_torrent connecting_A torrent_A) (Some magnet_B))
       = ([ClientRemove torrent_A, ClientAdd magnet_B], 200, ''adding'')"
  by (simp add: connecting_A_def post_torrent_add_def idle_gateway_def get_torrent_status_def
        truthy_def magnet_A_def magnet_B_def on_torrent_def Let_def)

section \<open>Invariants of the reachable states\<close>

text \<open>
  The handlers keep every room of the registry non-empty with distinct keys, and every
  channel room free of duplicates, from any state that has these properties.
\<close>

lemma keys_map_set:
  "map fst (map_set k v kvs) =
     (if k \<in> fst ` set kvs then map fst kvs else map fst kvs @ [k])"
  by (induction kvs) (auto simp add: rev_image_eqI)

lemma distinct_map_set: "distinct (map fst kvs) \<Longrightarrow> distinct (map fst (map_set k v kvs))"
  by (simp add: keys_map_set)

lemma distinct_map_delete: "distinct (map fst kvs) \<Longrightarrow> distinct (map fst (map_delete k kvs))"
  by (simp add: map_delete_def distinct_map_filter)

lemma joinRoom_ok: "rooms_ok rs \<Longrightarrow> rooms_ok (fst (joinRoom rs now r s u))"
  by (cases "rs r")
     (auto simp add: rooms_ok_def joinRoom_def createRoom_def Let_def map_set_nonempty
        distinct_map_set)

lemma leaveRoom_ok: "rooms_ok rs \<Longrightarrow> rooms_ok (fst (leaveRoom rs r s))"
  by (cases "rs r")
     (auto simp add: rooms_ok_def leaveRoom_def Let_def distinct_map_delete)

lemma updateRoom_ok: "rooms_ok rs \<Longrightarrow> rooms_ok (fst (updateRoom rs now r upd))"
  by (cases "rs r") (auto simp add: rooms_ok_def updateRoom_def Let_def)

lemma handle_rooms_ok: "rooms_ok (rooms st) \<Longrightarrow> rooms_ok (rooms (handle q now st))"
proof (cases q)
  case (JoinRoom s r u)
  assume "rooms_ok (rooms st)"
  then show ?thesis
    by (simp add: JoinRoom on_join_room_rooms joinRoom_ok leaveRoom_ok)
next
  case (Disconnect s)
  assume "rooms_ok (rooms st)"
  then show ?thesis
    by (simp add: Disconnect on_disconnect_rooms leaveRoom_ok split: option.splits)
qed (simp_all add: post_rooms_def get_rooms_def on_video_change_def on_play_def on_pause_def
       on_seek_def on_send_message_def Let_def joinRoom_ok updateRoom_ok)

lemma handle_members:
  "members (handle q now st) r =
     (case q of
        JoinRoom s r' u \<Rightarrow> if r = r' \<and> s \<notin> set (members st r) then members st r @ [s]
                           else members st r
      | Disconnect s \<Rightarrow> filter (\<lambda>x. x \<noteq> s) (members st r)
      | _ \<Rightarrow> members st r)"
  by (cases q)
     (auto simp add: post_rooms_def get_rooms_def on_join_room_def socket_join_def
        on_video_change_def on_play_def on_pause_def on_seek_def on_send_message_def
        on_disconnect_def socket_leave_all_def Let_def split: option.splits prod.splits)

lemma handle_ok: "server_ok st \<Longrightarrow> server_ok (handle q now st)"
  unfolding server_ok_def
  by (auto simp add: handle_rooms_ok handle_members split: request.splits)

lemma run_ok: "server_ok st \<Longrightarrow> server_ok (run qs st)"
  by (induction qs arbitrary: st) (auto simp add: handle_ok)

lemma fresh_server_ok: "server_ok fresh_server"
  by (simp add: server_ok_def rooms_ok_def fresh_server_def)

lemma reachable_ok: "server_ok (run qs fresh_server)"
  by (rule run_ok [OF fresh_server_ok])


text \<open>
  The keys of a room's \<open>users\<close> map after each store operation and after each request.
\<close>

lemma keys_getUsersList: "fst ` set (getUsersList rs r) = keys rs r"
  by (simp add: keys_def getUsersList_def split: option.splits)

lemma keys_map_delete: "fst ` set (map_delete k kvs) = fst ` set kvs - {k}"
  by (auto simp add: map_delete_def)

lemma keys_joinRoom:
  "keys (fst (joinRoom rs now r s u)) r' = (if r' = r then insert s (keys rs r) else keys rs r')"
proof -
  have "set (map fst (map_set s v kvs)) = insert s (fst ` set kvs)" for v and kvs :: "(socket_id \<times> string) list"
    by (simp add: keys_map_set) auto
  then have k: "fst ` set (map_set s v kvs) = insert s (fst ` set kvs)" for v and kvs :: "(socket_id \<times> string) list"
    by simp
  show ?thesis
    by (cases "rs r") (simp_all add: keys_def joinRoom_def createRoom_def Let_def k)
qed

lemma keys_leaveRoom:
  "keys (fst (leaveRoom rs r s)) r' = (if r' = r then keys rs r - {s} else keys rs r')"
proof (cases "rs r")
  case None
  then show ?thesis by (simp add: keys_def leaveRoom_def)
next
  case (Some room)
  show ?thesis
  proof (cases "map_delete s (users room) = []")
    case True
    then have "fst ` set (users room) - {s} = {}"
      using keys_map_delete [of s "users room"] by simp
    with True Some show ?thesis
      by (simp add: keys_def leaveRoom_def Let_def)
  next
    case False
    with Some show ?thesis
      by (simp add: keys_def leaveRoom_def Let_def keys_map_delete)
  qed
qed

lemma keys_updateRoom: "keys (fst (updateRoom rs now r upd)) r' = keys rs r'"
  by (cases "rs r") (simp_all add: keys_def updateRoom_def Let_def)

lemma handle_keys:
  "keys (rooms (handle q now st)) r =
     (case q of
        PostRooms r' \<Rightarrow> if r = r' then insert placeholder (keys (rooms st) r)
                        else keys (rooms st) r
      | JoinRoom s r' u \<Rightarrow> if r = r' then insert s (keys (rooms st) r - {placeholder})
                           else keys (rooms st) r
      | Disconnect s \<Rightarrow>
          (case sock_roomId st s of
             None \<Rightarrow> keys (rooms st) r
           | Some r' \<Rightarrow> if r' \<noteq> [] \<and> r = r' then keys (rooms st) r - {s}
                        else keys (rooms st) r)
      | _ \<Rightarrow> keys (rooms st) r)"
proof (cases q)
  case (JoinRoom s r' u)
  then show ?thesis
    by (simp add: on_join_room_rooms keys_joinRoom keys_leaveRoom)
next
  case (Disconnect s)
  then show ?thesis
    by (simp add: on_disconnect_rooms keys_leaveRoom split: option.splits)
qed (simp_all add: post_rooms_def get_rooms_def on_video_change_def on_play_def on_pause_def
       on_seek_def on_send_message_def Let_def keys_joinRoom keys_updateRoom)

lemma handle_sock_roomId:
  "sock_roomId (handle q now st) =
     (case q of JoinRoom s r u \<Rightarrow> (sock_roomId st)(s \<mapsto> r) | _ \<Rightarrow> sock_roomId st)"
  by (cases q)
     (auto simp add: post_rooms_def get_rooms_def on_join_room_def socket_join_def
        on_video_change_def on_play_def on_pause_def on_seek_def on_send_message_def
        on_disconnect_def socket_leave_all_def Let_def split: option.splits prod.splits)

text \<open>
  When every socket joins once, with a non-empty room id, the sockets joined to the
  channel room of a room id are the keys of that room's \<open>users\<close> map, the placeholder
  apart, and a socket is in no channel room but the one it joined.
\<close>

lemma handle_consistent:
  assumes "consistent st" and "admissible q st"
  shows "consistent (handle q now st)"
proof -
  from assms(1) have m: "\<And>r. set (members st r) = keys (rooms st) r - {placeholder}"
    and o: "\<And>s r. s \<in> set (members st r) \<Longrightarrow> sock_roomId st s = Some r"
    and e: "\<And>s. sock_roomId st s \<noteq> Some []"
    by (auto simp add: consistent_def)
  show ?thesis
  proof (cases q)
    case (JoinRoom s r' u)
    with assms(2) have a: "s \<noteq> placeholder" "r' \<noteq> []" "sock_roomId st s = None" by simp_all
    from a(3) o have nowhere: "\<And>r. s \<notin> set (members st r)" by fastforce
    show ?thesis
      unfolding consistent_def handle_keys handle_members handle_sock_roomId JoinRoom
      using a nowhere m o e by (auto split: if_splits)
  next
    case (Disconnect s)
    show ?thesis
    proof (cases "sock_roomId st s")
      case None
      with o have "\<And>r. s \<notin> set (members st r)" by fastforce
      with None show ?thesis
        unfolding consistent_def handle_keys handle_members handle_sock_roomId Disconnect
        using m o e by (auto simp add: filter_id_conv)
    next
      case (Some r')
      with e have ne: "r' \<noteq> []" by auto
      from Some o have only: "\<And>r. s \<in> set (members st r) \<Longrightarrow> r = r'" by fastforce
      show ?thesis
        unfolding consistent_def handle_keys handle_members handle_sock_roomId Disconnect
        using Some ne only m o e by (auto split: if_splits)
    qed
  next
    case (PostRooms r')
    show ?thesis
      unfolding consistent_def handle_keys handle_members handle_sock_roomId PostRooms
      using m o e by auto
  qed (unfold consistent_def handle_keys handle_members handle_sock_roomId,
       use m o e in auto)
qed

lemma reachable_consistent: "reachable st \<Longrightarrow> consistent st"
proof (induction rule: reachable.induct)
  case start
  show ?case
    by (simp add: consistent_def fresh_server_def keys_def)
next
  case (step st q now)
  then show ?case by (simp add: handle_consistent)
qed

lemma reachable_server_ok: "reachable st \<Longrightarrow> server_ok st"
  by (induction rule: reachable.induct) (simp_all add: fresh_server_ok handle_ok)


text \<open>
  Consequences for the reachable states: a room of the registry has a participant, and
  the sockets that a relay or a broadcast into a room addresses are the participants
  that the room's users list shows, as many as it shows.
\<close>

lemma reachable_rooms_nonempty:
  "reachable st \<Longrightarrow> rooms st r = Some room \<Longrightarrow> users room \<noteq> []"
  using reachable_server_ok [of st] by (simp add: server_ok_def rooms_ok_def)

lemma reachable_members_listed:
  assumes "reachable st"
  shows "set (members st r)
           = fst ` set (filter (\<lambda>u. fst u \<noteq> placeholder) (getUsersList (rooms st) r))"
    and "length (members st r)
           = length (filter (\<lambda>u. fst u \<noteq> placeholder) (getUsersList (rooms st) r))"
proof -
  let ?l = "filter (\<lambda>u. fst u \<noteq> placeholder) (getUsersList (rooms st) r)"
  from reachable_consistent [OF assms]
  have "set (members st r) = keys (rooms st) r - {placeholder}"
    by (simp add: consistent_def)
  also have "\<dots> = fst ` set ?l"
    by (auto simp add: keys_getUsersList [symmetric])
  finally show s: "set (members st r) = fst ` set ?l" .
  from reachable_server_ok [OF assms] have dm: "distinct (members st r)"
    by (simp add: server_ok_def)
  have "distinct (map fst (getUsersList (rooms st) r))"
    using reachable_server_ok [OF assms]
    by (auto simp add: server_ok_def rooms_ok_def getUsersList_def split: option.splits)
  then have dl: "distinct (map fst ?l)"
    by (simp add: distinct_map_filter)
  have "length (members st r) = card (set (members st r))"
    using dm by (simp add: distinct_card)
  also have "\<dots> = card (set (map fst ?l))"
    using s by simp
  also have "\<dots> = length (map fst ?l)"
    using dl by (rule distinct_card)
  finally show "length (members st r) = length ?l" by simp
qed

end
